theory Spec2Isabelle
  imports Main "HOL-Library.AList"
begin

section \<open>JavaScript values used by the server\<close>

text \<open>
  A JavaScript \<^verbatim>\<open>Map\<close> keeps its entries in insertion order: \<^verbatim>\<open>set\<close> on a key that is
  present replaces the value where it stands, \<^verbatim>\<open>set\<close> on a new key appends, \<^verbatim>\<open>delete\<close>
  removes the entry. An association list with \<open>AList.update\<close> and \<open>AList.delete\<close>
  behaves the same way; \<open>map_of\<close> is the lookup.
\<close>

type_synonym ('k, 'v) js_map = "('k \<times> 'v) list"

definition Map_get :: "('k, 'v) js_map \<Rightarrow> 'k \<Rightarrow> 'v option" where
  "Map_get m k = map_of m k"

definition Map_has :: "('k, 'v) js_map \<Rightarrow> 'k \<Rightarrow> bool" where
  "Map_has m k = (case map_of m k of None \<Rightarrow> False | Some v \<Rightarrow> True)"

definition Map_set :: "'k \<Rightarrow> 'v \<Rightarrow> ('k, 'v) js_map \<Rightarrow> ('k, 'v) js_map" where
  "Map_set k v m = AList.update k v m"

definition Map_delete :: "'k \<Rightarrow> ('k, 'v) js_map \<Rightarrow> ('k, 'v) js_map" where
  "Map_delete k m = AList.delete k m"

definition Map_size :: "('k, 'v) js_map \<Rightarrow> nat" where
  "Map_size m = length m"

definition Map_values :: "('k, 'v) js_map \<Rightarrow> 'v list" where
  "Map_values m = map snd m"

text \<open>
  A value that is a string, \<^verbatim>\<open>null\<close> or \<^verbatim>\<open>undefined\<close> is a \<open>string option\<close>; only a
  non-empty string is truthy. \<open>or_else a b\<close> is \<^verbatim>\<open>a || b\<close> at that type, and a test
  \<^verbatim>\<open>if (v)\<close> is a case distinction on \<open>None\<close>, the empty string, and the rest.
\<close>

fun or_else :: "string option \<Rightarrow> string \<Rightarrow> string" where
  "or_else None d = d"
| "or_else (Some s) d = (if s = [] then d else s)"

section \<open>drawing-state.js: the state of one room\<close>

type_synonym socket_id = string
type_synonym room_id = string

text \<open>
  The object the draw handler passes to \<^verbatim>\<open>addOperation\<close>, and the record the method
  builds from it: \<^verbatim>\<open>{...operation, id, timestamp}\<close>. The field \<^verbatim>\<open>id\<close> is \<open>op_id\<close> here
  (\<open>id\<close> is HOL's identity function). Identifiers and timestamps are natural numbers:
  the counter starts at 0 and only \<^verbatim>\<open>++\<close> and the reset to 0 touch it, and the model
  does not follow a double past \<open>2^53\<close>.
\<close>

record 'd partial_operation =
  op_type :: string
  op_data :: 'd
  op_userId :: socket_id
  op_username :: "string option"

record 'd operation = "'d partial_operation" +
  op_id :: nat
  op_timestamp :: nat

record user_info =
  userId :: socket_id
  username :: string
  color :: string

record user = user_info +
  joinedAt :: nat

record 'd DrawingState =
  roomId :: room_id
  operations :: "'d operation list"
  currentOperationId :: nat
  users :: "(socket_id, user) js_map"

definition DrawingState_new :: "room_id \<Rightarrow> 'd DrawingState" where
  "DrawingState_new rid =
     \<lparr>roomId = rid, operations = [], currentOperationId = 0, users = []\<rparr>"

text \<open>\<^verbatim>\<open>Date.now()\<close> is an input: the caller passes the clock reading \<open>now\<close>.\<close>

definition addOperation ::
  "'d partial_operation \<Rightarrow> nat \<Rightarrow> 'd DrawingState \<Rightarrow> 'd operation \<times> 'd DrawingState" where
  "addOperation operation now s =
     (let op = \<lparr>op_type = op_type operation, op_data = op_data operation,
                op_userId = op_userId operation, op_username = op_username operation,
                op_id = currentOperationId s, op_timestamp = now\<rparr>
      in (op, s\<lparr>currentOperationId := currentOperationId s + 1,
                operations := operations s @ [op]\<rparr>))"

definition getAllOperations :: "'d DrawingState \<Rightarrow> 'd operation list" where
  "getAllOperations s = operations s"

text \<open>\<^verbatim>\<open>undo\<close> returns \<^verbatim>\<open>null\<close> (\<open>None\<close>) on an empty log and pops the last entry otherwise.\<close>

definition undo :: "'d DrawingState \<Rightarrow> 'd operation option \<times> 'd DrawingState" where
  "undo s =
     (if length (operations s) = 0 then (None, s)
      else (Some (last (operations s)), s\<lparr>operations := butlast (operations s)\<rparr>))"

definition addUser :: "socket_id \<Rightarrow> user_info \<Rightarrow> nat \<Rightarrow> 'd DrawingState \<Rightarrow> 'd DrawingState" where
  "addUser uid info now s =
     s\<lparr>users := Map_set uid
          \<lparr>userId = uid, username = username info, color = color info, joinedAt = now\<rparr>
          (users s)\<rparr>"

definition removeUser :: "socket_id \<Rightarrow> 'd DrawingState \<Rightarrow> 'd DrawingState" where
  "removeUser uid s = s\<lparr>users := Map_delete uid (users s)\<rparr>"

definition getUser :: "'d DrawingState \<Rightarrow> socket_id \<Rightarrow> user option" where
  "getUser s uid = Map_get (users s) uid"

definition getUsers :: "'d DrawingState \<Rightarrow> user list" where
  "getUsers s = Map_values (users s)"

definition clear :: "'d DrawingState \<Rightarrow> 'd DrawingState" where
  "clear s = s\<lparr>operations := [], currentOperationId := 0\<rparr>"

subsection \<open>Histories of method calls on one room\<close>

datatype 'd call =
    Call_addOperation "'d partial_operation" nat
  | Call_undo
  | Call_clear
  | Call_addUser socket_id user_info nat
  | Call_removeUser socket_id

fun exec :: "'d DrawingState \<Rightarrow> 'd call \<Rightarrow> 'd DrawingState" where
  "exec s (Call_addOperation p now) = snd (addOperation p now s)"
| "exec s Call_undo = snd (undo s)"
| "exec s Call_clear = clear s"
| "exec s (Call_addUser uid info now) = addUser uid info now s"
| "exec s (Call_removeUser uid) = removeUser uid s"

definition run :: "'d DrawingState \<Rightarrow> 'd call list \<Rightarrow> 'd DrawingState" where
  "run s calls = foldl exec s calls"

text \<open>The identifiers that the \<^verbatim>\<open>addOperation\<close> calls of a history return, in call order.\<close>

fun assigned_ids :: "'d DrawingState \<Rightarrow> 'd call list \<Rightarrow> nat list" where
  "assigned_ids s [] = []"
| "assigned_ids s (Call_addOperation p now # cs) =
     op_id (fst (addOperation p now s)) # assigned_ids (snd (addOperation p now s)) cs"
| "assigned_ids s (c # cs) = assigned_ids (exec s c) cs"

text \<open>\<open>n\<close> consecutive \<^verbatim>\<open>addOperation\<close> calls: the returned records and the final state.\<close>

fun addOperations ::
  "'d DrawingState \<Rightarrow> ('d partial_operation \<times> nat) list \<Rightarrow> 'd operation list \<times> 'd DrawingState" where
  "addOperations s [] = ([], s)"
| "addOperations s ((p, now) # ps) =
     (let (op, s1) = addOperation p now s;
          (ops, s2) = addOperations s1 ps
      in (op # ops, s2))"

fun is_clear :: "'d call \<Rightarrow> bool" where
  "is_clear Call_clear = True"
| "is_clear c = False"

definition log_ids :: "'d DrawingState \<Rightarrow> nat list" where
  "log_ids s = map op_id (operations s)"

text \<open>
  A property of a room state used in the proofs: the identifiers in the log ascend
  strictly and stay below the counter.
\<close>

definition log_inv :: "'d DrawingState \<Rightarrow> bool" where
  "log_inv s =
     (sorted_wrt (<) (log_ids s) \<and> (\<forall>i \<in> set (log_ids s). i < currentOperationId s))"

text \<open>
  What a history of calls on a new room says about its log, read off the calls alone:
  \<open>in_log\<close> is the number of operations in the log, \<open>removed\<close> the number of \<^verbatim>\<open>undo\<close> calls
  since the last \<^verbatim>\<open>clear\<close> (or since the room was created) that removed an operation, and
  \<open>late\<close> the number of operations in the log that were added after such an \<^verbatim>\<open>undo\<close>. An
  \<^verbatim>\<open>undo\<close> on an empty log removes nothing and is not counted; the late operations are the
  last ones of the log, so an \<^verbatim>\<open>undo\<close> removes a late one when there is one.
\<close>

record tally =
  in_log :: nat
  removed :: nat
  late :: nat

fun tally_step :: "tally \<Rightarrow> 'd call \<Rightarrow> tally" where
  "tally_step t (Call_addOperation p now) =
     t\<lparr>in_log := in_log t + 1, late := (if removed t = 0 then 0 else late t + 1)\<rparr>"
| "tally_step t Call_undo =
     (if in_log t = 0 then t
      else t\<lparr>in_log := in_log t - 1, removed := removed t + 1, late := late t - 1\<rparr>)"
| "tally_step t Call_clear = \<lparr>in_log = 0, removed = 0, late = 0\<rparr>"
| "tally_step t (Call_addUser uid info now) = t"
| "tally_step t (Call_removeUser uid) = t"

definition tally_of :: "'d call list \<Rightarrow> tally" where
  "tally_of calls = foldl tally_step \<lparr>in_log = 0, removed = 0, late = 0\<rparr> calls"

text \<open>
  The relation between a room state and the tally of its history, used in the proofs: the
  operations before the late ones carry their position as identifier, the late ones an
  identifier above their position.
\<close>

definition tally_inv :: "'d DrawingState \<Rightarrow> tally \<Rightarrow> bool" where
  "tally_inv s t =
     (length (operations s) = in_log t \<and>
      currentOperationId s = in_log t + removed t \<and>
      late t \<le> in_log t \<and>
      (removed t = 0 \<longrightarrow> late t = 0) \<and>
      (\<forall>i < in_log t. if i < in_log t - late t then op_id (operations s ! i) = i
                       else i < op_id (operations s ! i)))"

section \<open>rooms.js: the room store\<close>

record 'd RoomManager =
  rooms :: "(room_id, 'd DrawingState) js_map"

definition RoomManager_new :: "'d RoomManager" where
  "RoomManager_new = \<lparr>rooms = []\<rparr>"

text \<open>
  \<^verbatim>\<open>getOrCreateRoom\<close> stores a new room when the key is absent and returns the entry under
  the key, which is the new room in that case.
\<close>

definition getOrCreateRoom :: "room_id \<Rightarrow> 'd RoomManager \<Rightarrow> 'd DrawingState \<times> 'd RoomManager" where
  "getOrCreateRoom rid rm =
     (case Map_get (rooms rm) rid of
        Some room \<Rightarrow> (room, rm)
      | None \<Rightarrow> (DrawingState_new rid,
                 rm\<lparr>rooms := Map_set rid (DrawingState_new rid) (rooms rm)\<rparr>))"

definition getRoom :: "'d RoomManager \<Rightarrow> room_id \<Rightarrow> 'd DrawingState option" where
  "getRoom rm rid = Map_get (rooms rm) rid"

text \<open>
  A room is an object that the handlers mutate in place through the reference the map
  holds. The model writes the mutated room back under its key; the entry keeps its
  position.
\<close>

definition put_room :: "room_id \<Rightarrow> 'd DrawingState \<Rightarrow> 'd RoomManager \<Rightarrow> 'd RoomManager" where
  "put_room rid room rm = rm\<lparr>rooms := Map_set rid room (rooms rm)\<rparr>"

definition removeRoom :: "room_id \<Rightarrow> 'd RoomManager \<Rightarrow> bool \<times> 'd RoomManager" where
  "removeRoom rid rm =
     (case Map_get (rooms rm) rid of
        None \<Rightarrow> (False, rm)
      | Some room \<Rightarrow>
          if Map_size (users room) = 0
          then (True, rm\<lparr>rooms := Map_delete rid (rooms rm)\<rparr>)
          else (False, rm))"

definition cleanupEmptyRooms :: "'d RoomManager \<Rightarrow> nat \<times> 'd RoomManager" where
  "cleanupEmptyRooms rm =
     (let emptyRooms = map fst (filter (\<lambda>(rid, state). Map_size (users state) = 0) (rooms rm))
      in (length emptyRooms, rm\<lparr>rooms := fold Map_delete emptyRooms (rooms rm)\<rparr>))"

section \<open>The socket server: connection handlers\<close>

definition USER_COLORS :: "string list" where
  "USER_COLORS =
     [''#FF6B6B'', ''#4ECDC4'', ''#45B7D1'', ''#FFA07A'',
      ''#98D8C8'', ''#F7DC6F'', ''#BB8FCE'', ''#85C1E2'',
      ''#F8B739'', ''#52B788'', ''#E63946'', ''#A8DADC'']"

text \<open>The variables shared by all connections, and the two variables of one connection's closure.\<close>

record 'd globals =
  roomManager :: "'d RoomManager"
  colorIndex :: nat

record closure =
  currentRoom :: "room_id option"
  userInfo :: "user_info option"

record join_data =
  jd_roomId :: "string option"
  jd_username :: "string option"

text \<open>What the handlers send, and the calls they make on the socket library.\<close>

datatype 'd message =
    Msg_user_left socket_id
  | Msg_init_state socket_id user_info "'d operation list" "user list"
  | Msg_user_joined user_info
  | Msg_users_update "user list"
  | Msg_draw "'d operation"
  | Msg_cursor_move socket_id "string option" "string option" int int
  | Msg_undo nat
  | Msg_clear_canvas

datatype 'd effect =
    Socket_leave socket_id room_id
  | Socket_join socket_id room_id
  | Socket_emit socket_id "'d message"
  | Socket_to_emit socket_id room_id "'d message"
  | Io_to_emit room_id "'d message"
  | Set_timeout room_id nat

text \<open>
  The join handler in two parts: leaving the previous room (the \<^verbatim>\<open>if (currentRoom)\<close>
  block), and joining the new one. \<open>gen\<close> is what \<^verbatim>\<open>generateUsername()\<close> returns when it
  is called, \<open>now\<close> the clock reading of \<^verbatim>\<open>addUser\<close>.
\<close>

definition join_room_leave ::
  "socket_id \<Rightarrow> closure \<Rightarrow> 'd globals \<Rightarrow> 'd globals \<times> 'd effect list" where
  "join_room_leave sid c g =
     (case currentRoom c of
        None \<Rightarrow> (g, [])
      | Some cur \<Rightarrow>
          if cur = [] then (g, [])
          else (case getRoom (roomManager g) cur of
                  None \<Rightarrow> (g, [Socket_leave sid cur])
                | Some oldRoom \<Rightarrow>
                    (g\<lparr>roomManager := put_room cur (removeUser sid oldRoom) (roomManager g)\<rparr>,
                     [Socket_leave sid cur, Socket_to_emit sid cur (Msg_user_left sid)])))"

definition join_room_enter ::
  "socket_id \<Rightarrow> join_data \<Rightarrow> string \<Rightarrow> nat \<Rightarrow> 'd globals \<Rightarrow> closure \<times> 'd globals \<times> 'd effect list" where
  "join_room_enter sid data gen now g =
     (let roomId = or_else (jd_roomId data) ''default'';
          username = or_else (jd_username data) gen;
          (room, rm1) = getOrCreateRoom roomId (roomManager g);
          userColor = USER_COLORS ! (colorIndex g mod length USER_COLORS);
          info = \<lparr>userId = sid, username = username, color = userColor\<rparr>;
          room1 = addUser sid info now room
      in (\<lparr>currentRoom = Some roomId, userInfo = Some info\<rparr>,
          g\<lparr>roomManager := put_room roomId room1 rm1, colorIndex := colorIndex g + 1\<rparr>,
          [Socket_join sid roomId,
           Socket_emit sid (Msg_init_state sid info (getAllOperations room1) (getUsers room1)),
           Socket_to_emit sid roomId (Msg_user_joined info),
           Io_to_emit roomId (Msg_users_update (getUsers room1))]))"

definition on_join_room ::
  "socket_id \<Rightarrow> join_data \<Rightarrow> string \<Rightarrow> nat \<Rightarrow> closure \<Rightarrow> 'd globals
     \<Rightarrow> closure \<times> 'd globals \<times> 'd effect list" where
  "on_join_room sid data gen now c g =
     (let (g1, fx1) = join_room_leave sid c g;
          (c2, g2, fx2) = join_room_enter sid data gen now g1
      in (c2, g2, fx1 @ fx2))"

definition on_draw ::
  "socket_id \<Rightarrow> 'd \<Rightarrow> nat \<Rightarrow> closure \<Rightarrow> 'd globals \<Rightarrow> closure \<times> 'd globals \<times> 'd effect list" where
  "on_draw sid data now c g =
     (case currentRoom c of
        None \<Rightarrow> (c, g, [])
      | Some cur \<Rightarrow>
          if cur = [] then (c, g, [])
          else (case getRoom (roomManager g) cur of
                  None \<Rightarrow> (c, g, [])
                | Some room \<Rightarrow>
                    (let (operation, room1) =
                           addOperation \<lparr>op_type = ''draw'', op_data = data, op_userId = sid,
                                         op_username = map_option username (userInfo c)\<rparr> now room
                     in (c, g\<lparr>roomManager := put_room cur room1 (roomManager g)\<rparr>,
                         [Socket_to_emit sid cur (Msg_draw operation)]))))"

definition on_cursor_move ::
  "socket_id \<Rightarrow> int \<Rightarrow> int \<Rightarrow> closure \<Rightarrow> 'd globals \<Rightarrow> closure \<times> 'd globals \<times> 'd effect list" where
  "on_cursor_move sid x y c g =
     (case currentRoom c of
        None \<Rightarrow> (c, g, [])
      | Some cur \<Rightarrow>
          if cur = [] then (c, g, [])
          else (c, g, [Socket_to_emit sid cur
                         (Msg_cursor_move sid (map_option username (userInfo c))
                            (map_option color (userInfo c)) x y)]))"

definition on_undo ::
  "socket_id \<Rightarrow> closure \<Rightarrow> 'd globals \<Rightarrow> closure \<times> 'd globals \<times> 'd effect list" where
  "on_undo sid c g =
     (case currentRoom c of
        None \<Rightarrow> (c, g, [])
      | Some cur \<Rightarrow>
          if cur = [] then (c, g, [])
          else (case getRoom (roomManager g) cur of
                  None \<Rightarrow> (c, g, [])
                | Some room \<Rightarrow>
                    (let (undoneOperation, room1) = undo room;
                         g1 = g\<lparr>roomManager := put_room cur room1 (roomManager g)\<rparr>
                     in (case undoneOperation of
                           None \<Rightarrow> (c, g1, [])
                         | Some op \<Rightarrow> (c, g1, [Io_to_emit cur (Msg_undo (op_id op))])))))"

definition on_clear_canvas ::
  "socket_id \<Rightarrow> closure \<Rightarrow> 'd globals \<Rightarrow> closure \<times> 'd globals \<times> 'd effect list" where
  "on_clear_canvas sid c g =
     (case currentRoom c of
        None \<Rightarrow> (c, g, [])
      | Some cur \<Rightarrow>
          if cur = [] then (c, g, [])
          else (case getRoom (roomManager g) cur of
                  None \<Rightarrow> (c, g, [])
                | Some room \<Rightarrow>
                    (c, g\<lparr>roomManager := put_room cur (clear room) (roomManager g)\<rparr>,
                     [Io_to_emit cur Msg_clear_canvas])))"

definition on_disconnect ::
  "socket_id \<Rightarrow> closure \<Rightarrow> 'd globals \<Rightarrow> closure \<times> 'd globals \<times> 'd effect list" where
  "on_disconnect sid c g =
     (case currentRoom c of
        None \<Rightarrow> (c, g, [])
      | Some cur \<Rightarrow>
          if cur = [] then (c, g, [])
          else (case getRoom (roomManager g) cur of
                  None \<Rightarrow> (c, g, [])
                | Some room \<Rightarrow>
                    (let room1 = removeUser sid room
                     in (c, g\<lparr>roomManager := put_room cur room1 (roomManager g)\<rparr>,
                         [Socket_to_emit sid cur (Msg_user_left sid),
                          Io_to_emit cur (Msg_users_update (getUsers room1)),
                          Set_timeout cur 5000]))))"

subsection \<open>The event loop\<close>

text \<open>
  The server is the shared variables and one closure per live connection. An event of a
  connection runs that connection's handler; an event for an identifier with no live
  connection has no handler. Socket identifiers are unique among live connections, so a
  \<^verbatim>\<open>connection\<close> event for a live identifier does not occur and changes nothing here; after
  \<^verbatim>\<open>disconnect\<close> the connection and its closure are gone. \<open>Ev_timeout r\<close> is a timer set by a
  disconnect firing for room \<open>r\<close>, \<open>Ev_interval\<close> the periodic sweep. Calls of
  \<^verbatim>\<open>console.log\<close> are left out.
\<close>

record 'd server =
  globals :: "'d globals"
  sockets :: "(socket_id, closure) js_map"

definition server_init :: "'d server" where
  "server_init =
     \<lparr>globals = \<lparr>roomManager = RoomManager_new, colorIndex = 0\<rparr>, sockets = []\<rparr>"

datatype 'd event =
    Ev_connection socket_id
  | Ev_join_room socket_id join_data string nat
  | Ev_draw socket_id 'd nat
  | Ev_cursor_move socket_id int int
  | Ev_undo socket_id
  | Ev_clear_canvas socket_id
  | Ev_disconnect socket_id
  | Ev_timeout room_id
  | Ev_interval

definition dispatch ::
  "socket_id \<Rightarrow> (closure \<Rightarrow> 'd globals \<Rightarrow> closure \<times> 'd globals \<times> 'd effect list)
     \<Rightarrow> 'd server \<Rightarrow> 'd server \<times> 'd effect list" where
  "dispatch sid handler s =
     (case Map_get (sockets s) sid of
        None \<Rightarrow> (s, [])
      | Some c \<Rightarrow>
          (let (c1, g1, fx) = handler c (globals s)
           in (\<lparr>globals = g1, sockets = Map_set sid c1 (sockets s)\<rparr>, fx)))"

fun step :: "'d server \<Rightarrow> 'd event \<Rightarrow> 'd server \<times> 'd effect list" where
  "step s (Ev_connection sid) =
     (if Map_has (sockets s) sid then (s, [])
      else (s\<lparr>sockets := Map_set sid \<lparr>currentRoom = None, userInfo = None\<rparr> (sockets s)\<rparr>, []))"
| "step s (Ev_join_room sid data gen now) = dispatch sid (on_join_room sid data gen now) s"
| "step s (Ev_draw sid data now) = dispatch sid (on_draw sid data now) s"
| "step s (Ev_cursor_move sid x y) = dispatch sid (on_cursor_move sid x y) s"
| "step s (Ev_undo sid) = dispatch sid (on_undo sid) s"
| "step s (Ev_clear_canvas sid) = dispatch sid (on_clear_canvas sid) s"
| "step s (Ev_disconnect sid) =
     (let (s1, fx) = dispatch sid (on_disconnect sid) s
      in (s1\<lparr>sockets := Map_delete sid (sockets s1)\<rparr>, fx))"
| "step s (Ev_timeout r) =
     (s\<lparr>globals := (globals s)\<lparr>roomManager := snd (removeRoom r (roomManager (globals s)))\<rparr>\<rparr>, [])"
| "step s Ev_interval =
     (s\<lparr>globals := (globals s)\<lparr>roomManager := snd (cleanupEmptyRooms (roomManager (globals s)))\<rparr>\<rparr>, [])"

fun run_server :: "'d server \<Rightarrow> 'd event list \<Rightarrow> 'd server \<times> 'd effect list" where
  "run_server s [] = (s, [])"
| "run_server s (e # es) =
     (let (s1, fx1) = step s e;
          (s2, fx2) = run_server s1 es
      in (s2, fx1 @ fx2))"

text \<open>Membership of a connection in a room's \<^verbatim>\<open>users\<close> map.\<close>

definition is_member :: "'d globals \<Rightarrow> room_id \<Rightarrow> socket_id \<Rightarrow> bool" where
  "is_member g r sid =
     (case getRoom (roomManager g) r of
        None \<Rightarrow> False
      | Some room \<Rightarrow> Map_has (users room) sid)"

text \<open>The colours of the \<^verbatim>\<open>init-state\<close> messages of a trace, one per handled join, in order.\<close>

fun join_colors :: "'d effect list \<Rightarrow> string list" where
  "join_colors [] = []"
| "join_colors (Socket_emit sid (Msg_init_state uid info ops us) # fx) = color info # join_colors fx"
| "join_colors (e # fx) = join_colors fx"

text \<open>
  A join is handled when its connection is live. \<open>handled_joins s evs\<close> counts the joins
  handled while the events \<open>evs\<close> run from the state \<open>s\<close>.
\<close>

fun join_handled :: "'d server \<Rightarrow> 'd event \<Rightarrow> bool" where
  "join_handled s (Ev_join_room sid data gen now) = Map_has (sockets s) sid"
| "join_handled s e = False"

fun handled_joins :: "'d server \<Rightarrow> 'd event list \<Rightarrow> nat" where
  "handled_joins s [] = 0"
| "handled_joins s (e # es) =
     (if join_handled s e then 1 else 0) + handled_joins (fst (step s e)) es"

text \<open>
  The invariant of the server used in the proofs: the room store has one entry per key,
  no closure holds the empty string as its room, and a connection is in the \<^verbatim>\<open>users\<close> map
  of a stored room exactly when its closure names that room.
\<close>

definition server_inv :: "'d server \<Rightarrow> bool" where
  "server_inv s =
     (distinct (map fst (rooms (roomManager (globals s)))) \<and>
      (\<forall>sid c. Map_get (sockets s) sid = Some c \<longrightarrow> currentRoom c \<noteq> Some []) \<and>
      (\<forall>r sid. is_member (globals s) r sid
          = (\<exists>c. Map_get (sockets s) sid = Some c \<and> currentRoom c = Some r)))"

section \<open>The operation log of one room\<close>

lemma run_snoc: "run s (cs @ [c]) = exec (run s cs) c"
  by (simp add: run_def)

lemma run_Cons: "run s (c # cs) = run (exec s c) cs"
  by (simp add: run_def)

lemma run_Nil: "run s [] = s"
  by (simp add: run_def)

lemma log_inv_new: "log_inv (DrawingState_new rid)"
  by (simp add: log_inv_def log_ids_def DrawingState_new_def)

lemma log_inv_addOperation: "log_inv s \<Longrightarrow> log_inv (snd (addOperation p now s))"
  by (auto simp: log_inv_def log_ids_def addOperation_def Let_def sorted_wrt_append)

lemma log_inv_undo: "log_inv s \<Longrightarrow> log_inv (snd (undo s))"
proof (cases "operations s" rule: rev_cases)
  case Nil
  assume "log_inv s"
  with Nil show ?thesis by (simp add: undo_def)
next
  case (snoc ops op)
  assume "log_inv s"
  with snoc show ?thesis
    by (auto simp: log_inv_def log_ids_def undo_def sorted_wrt_append)
qed

lemma log_inv_exec: "log_inv s \<Longrightarrow> log_inv (exec s c)"
  by (cases c) (auto simp: log_inv_addOperation log_inv_undo, auto simp: log_inv_def log_ids_def clear_def addUser_def removeUser_def)

lemma log_inv_run: "log_inv s \<Longrightarrow> log_inv (run s calls)"
  by (induction calls arbitrary: s) (auto simp: run_Cons run_Nil log_inv_exec)

lemma tally_inv_new: "tally_inv (DrawingState_new rid) \<lparr>in_log = 0, removed = 0, late = 0\<rparr>"
  by (simp add: tally_inv_def DrawingState_new_def)

lemma tally_inv_clear: "tally_inv (clear s) \<lparr>in_log = 0, removed = 0, late = 0\<rparr>"
  by (simp add: tally_inv_def clear_def)

lemma tally_inv_addOperation:
  assumes "tally_inv s t"
  shows "tally_inv (snd (addOperation p now s)) (tally_step t (Call_addOperation p now))"
proof -
  let ?n = "in_log t"
  from assms have len: "length (operations s) = ?n"
    and cnt: "currentOperationId s = ?n + removed t"
    and le: "late t \<le> ?n"
    and zero: "removed t = 0 \<longrightarrow> late t = 0"
    and early: "\<And>i. i < ?n - late t \<Longrightarrow> op_id (operations s ! i) = i"
    and later: "\<And>i. i < ?n \<Longrightarrow> \<not> i < ?n - late t \<Longrightarrow> i < op_id (operations s ! i)"
    by (simp_all add: tally_inv_def)
  let ?ops = "operations (snd (addOperation p now s))"
  have ops: "?ops = operations s @ [fst (addOperation p now s)]"
    and new_id: "op_id (fst (addOperation p now s)) = ?n + removed t"
    and new_cnt: "currentOperationId (snd (addOperation p now s)) = Suc (?n + removed t)"
    by (simp_all add: addOperation_def Let_def cnt)
  have old: "?ops ! i = operations s ! i" if "i < ?n" for i
    using that by (simp add: ops nth_append len)
  have new: "?ops ! ?n = fst (addOperation p now s)"
    by (simp add: ops nth_append len)
  show ?thesis
  proof (cases "removed t = 0")
    case True
    with zero have l0: "late t = 0" by simp
    have "op_id (?ops ! i) = i" if "i < Suc ?n" for i
    proof (cases "i < ?n")
      case True
      then show ?thesis using early [of i] l0 by (simp add: old)
    next
      case False
      with that have "i = ?n" by simp
      then show ?thesis using \<open>removed t = 0\<close> by (simp add: new new_id)
    qed
    then show ?thesis
      using True l0 by (simp add: tally_inv_def ops len new_cnt)
  next
    case False
    have e: "op_id (?ops ! i) = i" if "i < ?n - late t" for i
      using that early [of i] by (simp add: old)
    have l: "i < op_id (?ops ! i)" if "i < Suc ?n" and "\<not> i < ?n - late t" for i
    proof (cases "i < ?n")
      case True
      then show ?thesis using later [of i] that by (simp add: old)
    next
      case False
      with that have "i = ?n" by simp
      then show ?thesis using \<open>removed t \<noteq> 0\<close> by (simp add: new new_id)
    qed
    show ?thesis
      using False le e l by (simp add: tally_inv_def ops len new_cnt)
  qed
qed

lemma tally_inv_undo:
  assumes "tally_inv s t"
  shows "tally_inv (snd (undo s)) (tally_step t Call_undo)"
proof (cases "operations s = []")
  case True
  with assms show ?thesis by (simp add: tally_inv_def undo_def)
next
  case False
  let ?n = "in_log t"
  from assms have len: "length (operations s) = ?n"
    and cnt: "currentOperationId s = ?n + removed t"
    and le: "late t \<le> ?n"
    and early: "\<And>i. i < ?n - late t \<Longrightarrow> op_id (operations s ! i) = i"
    and later: "\<And>i. i < ?n \<Longrightarrow> \<not> i < ?n - late t \<Longrightarrow> i < op_id (operations s ! i)"
    by (simp_all add: tally_inv_def)
  from False len have pos: "0 < ?n" by (metis length_greater_0_conv)
  have u: "snd (undo s) = s\<lparr>operations := butlast (operations s)\<rparr>"
    using False by (simp add: undo_def)
  have nth: "butlast (operations s) ! i = operations s ! i" if "i < ?n - 1" for i
    using that by (simp add: nth_butlast len)
  have e: "op_id (butlast (operations s) ! i) = i" if "i < ?n - 1 - (late t - 1)" for i
  proof -
    from that have "i < ?n - 1" and "i < ?n - late t" by auto
    then show ?thesis using early [of i] by (simp add: nth)
  qed
  have l: "i < op_id (butlast (operations s) ! i)"
    if "i < ?n - 1" and "\<not> i < ?n - 1 - (late t - 1)" for i
  proof -
    from that le have "i < ?n" and "\<not> i < ?n - late t" by auto
    then show ?thesis using later [of i] that(1) by (simp add: nth)
  qed
  show ?thesis
    using pos le cnt e l by (simp add: tally_inv_def u len)
qed

lemma tally_inv_exec: "tally_inv s t \<Longrightarrow> tally_inv (exec s c) (tally_step t c)"
proof (cases c)
  case (Call_addOperation p now)
  assume "tally_inv s t"
  then show ?thesis unfolding Call_addOperation exec.simps by (rule tally_inv_addOperation)
next
  case Call_undo
  assume "tally_inv s t"
  then show ?thesis unfolding Call_undo exec.simps by (rule tally_inv_undo)
next
  case Call_clear
  show ?thesis by (simp add: Call_clear tally_inv_clear)
next
  case (Call_addUser uid info now)
  assume "tally_inv s t"
  then show ?thesis by (simp add: Call_addUser tally_inv_def addUser_def)
next
  case (Call_removeUser uid)
  assume "tally_inv s t"
  then show ?thesis by (simp add: Call_removeUser tally_inv_def removeUser_def)
qed

lemma tally_inv_foldl:
  "tally_inv s t \<Longrightarrow> tally_inv (run s calls) (foldl tally_step t calls)"
  by (induction calls arbitrary: s t) (simp_all add: run_Nil run_Cons tally_inv_exec)

lemma tally_inv_run: "tally_inv (run (DrawingState_new rid) calls) (tally_of calls)"
  unfolding tally_of_def by (rule tally_inv_foldl [OF tally_inv_new])

lemma tally_last:
  assumes "tally_inv s t" and "operations s \<noteq> []"
  shows "(op_id (last (operations s)) = length (operations s) - 1) = (late t = 0)"
proof -
  let ?n = "in_log t"
  from assms have len: "length (operations s) = ?n"
    and le: "late t \<le> ?n"
    and early: "\<And>i. i < ?n - late t \<Longrightarrow> op_id (operations s ! i) = i"
    and later: "\<And>i. i < ?n \<Longrightarrow> \<not> i < ?n - late t \<Longrightarrow> i < op_id (operations s ! i)"
    by (simp_all add: tally_inv_def)
  from assms(2) len have pos: "0 < ?n" by (metis length_greater_0_conv)
  have l: "last (operations s) = operations s ! (?n - 1)"
    using assms(2) len by (simp add: last_conv_nth)
  show ?thesis
  proof (cases "late t = 0")
    case True
    with pos early [of "?n - 1"] show ?thesis by (simp add: l len)
  next
    case False
    with pos le have "?n - 1 < ?n" and "\<not> ?n - 1 < ?n - late t" by auto
    then have "?n - 1 < op_id (operations s ! (?n - 1))" by (rule later)
    with False show ?thesis by (simp add: l len)
  qed
qed

lemma tally_dense:
  assumes "tally_inv s t"
  shows "(log_ids s = [0..<length (operations s)]) = (late t = 0)"
proof (cases "operations s = []")
  case True
  with assms show ?thesis by (simp add: tally_inv_def log_ids_def)
next
  case False
  let ?n = "in_log t"
  from assms have len: "length (operations s) = ?n"
    and early: "\<And>i. i < ?n - late t \<Longrightarrow> op_id (operations s ! i) = i"
    by (simp_all add: tally_inv_def)
  from False len have pos: "0 < ?n" by (metis length_greater_0_conv)
  show ?thesis
  proof
    assume d: "log_ids s = [0..<length (operations s)]"
    have "op_id (last (operations s)) = last (log_ids s)"
      using False by (simp add: log_ids_def last_map)
    also have "\<dots> = ?n - 1"
      using pos by (simp add: d len last_conv_nth)
    finally show "late t = 0"
      using tally_last [OF assms False] by (simp add: len)
  next
    assume z: "late t = 0"
    show "log_ids s = [0..<length (operations s)]"
    proof (rule nth_equalityI)
      show "length (log_ids s) = length [0..<length (operations s)]"
        by (simp add: log_ids_def)
    next
      fix i assume "i < length (log_ids s)"
      then have i: "i < ?n" by (simp add: log_ids_def len)
      then show "log_ids s ! i = [0..<length (operations s)] ! i"
        using early [of i] z by (simp add: log_ids_def len)
    qed
  qed
qed

text \<open>
  Claim C1, as amended. For every history of calls on a new room, the identifiers in the
  log ascend strictly (so the log is totally ordered by identifier, without repeats) and
  each is below the counter; the counter is the length of the log plus the number of
  \<^verbatim>\<open>undo\<close> calls since the last \<^verbatim>\<open>clear\<close> that removed an operation. The identifiers are the
  consecutive numbers \<open>0, ..., k - 1\<close> for a log of \<open>k\<close> operations if and only if no
  operation in the log was added after an \<^verbatim>\<open>undo\<close> that removed an operation since the last
  \<^verbatim>\<open>clear\<close> (or since the room was created).
\<close>

theorem log_ids_ascending:
  "sorted_wrt (<) (log_ids (run (DrawingState_new rid) calls)) \<and>
   (\<forall>i \<in> set (log_ids (run (DrawingState_new rid) calls)).
      i < currentOperationId (run (DrawingState_new rid) calls)) \<and>
   length (operations (run (DrawingState_new rid) calls)) = in_log (tally_of calls) \<and>
   currentOperationId (run (DrawingState_new rid) calls)
     = in_log (tally_of calls) + removed (tally_of calls) \<and>
   (log_ids (run (DrawingState_new rid) calls)
      = [0..<length (operations (run (DrawingState_new rid) calls))])
     = (late (tally_of calls) = 0)"
proof -
  have "log_inv (run (DrawingState_new rid) calls)"
    by (rule log_inv_run [OF log_inv_new])
  moreover have t: "tally_inv (run (DrawingState_new rid) calls) (tally_of calls)"
    by (rule tally_inv_run)
  moreover from t have "length (operations (run (DrawingState_new rid) calls)) = in_log (tally_of calls)"
    and "currentOperationId (run (DrawingState_new rid) calls)
      = in_log (tally_of calls) + removed (tally_of calls)"
    by (simp_all add: tally_inv_def)
  ultimately show ?thesis
    using tally_dense [OF t] by (simp add: log_inv_def)
qed

theorem log_ids_ascending_witness:
  "tally_of
      [Call_undo,
       Call_addOperation \<lparr>op_type = ''draw'', op_data = (), op_userId = ''a'', op_username = None\<rparr> 10,
       Call_addOperation \<lparr>op_type = ''draw'', op_data = (), op_userId = ''b'', op_username = None\<rparr> 11,
       Call_undo]
     = \<lparr>in_log = 1, removed = 1, late = 0\<rparr> \<and>
   log_ids (run (DrawingState_new ''r'')
      [Call_undo,
       Call_addOperation \<lparr>op_type = ''draw'', op_data = (), op_userId = ''a'', op_username = None\<rparr> 10,
       Call_addOperation \<lparr>op_type = ''draw'', op_data = (), op_userId = ''b'', op_username = None\<rparr> 11,
       Call_undo]) = [0] \<and>
   currentOperationId (run (DrawingState_new ''r'')
      [Call_undo,
       Call_addOperation \<lparr>op_type = ''draw'', op_data = (), op_userId = ''a'', op_username = None\<rparr> 10,
       Call_addOperation \<lparr>op_type = ''draw'', op_data = (), op_userId = ''b'', op_username = None\<rparr> 11,
       Call_undo]) = 2 \<and>
   tally_of
      [Call_addOperation \<lparr>op_type = ''draw'', op_data = (), op_userId = ''a'', op_username = None\<rparr> 10,
       Call_addOperation \<lparr>op_type = ''draw'', op_data = (), op_userId = ''a'', op_username = None\<rparr> 11,
       Call_undo,
       Call_addOperation \<lparr>op_type = ''draw'', op_data = (), op_userId = ''b'', op_username = None\<rparr> 12]
     = \<lparr>in_log = 2, removed = 1, late = 1\<rparr>"
  using log_ids_ascending [of "''r''"
      "[Call_undo,
       Call_addOperation \<lparr>op_type = ''draw'', op_data = (), op_userId = ''a'', op_username = None\<rparr> 10,
       Call_addOperation \<lparr>op_type = ''draw'', op_data = (), op_userId = ''b'', op_username = None\<rparr> 11,
       Call_undo]"]
    log_ids_ascending [of "''r''"
      "[Call_addOperation \<lparr>op_type = ''draw'', op_data = (), op_userId = ''a'', op_username = None\<rparr> 10,
       Call_addOperation \<lparr>op_type = ''draw'', op_data = (), op_userId = ''a'', op_username = None\<rparr> 11,
       Call_undo,
       Call_addOperation \<lparr>op_type = ''draw'', op_data = (), op_userId = ''b'', op_username = None\<rparr> 12]"]
  by (simp add: tally_of_def run_def log_ids_def DrawingState_new_def addOperation_def undo_def
        Let_def)

text \<open>
  Claim C1 as stated fails: two operations, an \<^verbatim>\<open>undo\<close>, and one more operation leave the
  identifiers 0 and 2 in a log of length 2.
\<close>

theorem log_ids_gap_after_undo:
  "log_ids (run (DrawingState_new ''r'')
      [Call_addOperation \<lparr>op_type = ''draw'', op_data = (), op_userId = ''a'', op_username = None\<rparr> 10,
       Call_addOperation \<lparr>op_type = ''draw'', op_data = (), op_userId = ''a'', op_username = None\<rparr> 11,
       Call_undo,
       Call_addOperation \<lparr>op_type = ''draw'', op_data = (), op_userId = ''b'', op_username = None\<rparr> 12]) = [0, 2] \<and>
   log_ids (run (DrawingState_new ''r'')
      [Call_addOperation \<lparr>op_type = ''draw'', op_data = (), op_userId = ''a'', op_username = None\<rparr> 10,
       Call_addOperation \<lparr>op_type = ''draw'', op_data = (), op_userId = ''a'', op_username = None\<rparr> 11,
       Call_undo,
       Call_addOperation \<lparr>op_type = ''draw'', op_data = (), op_userId = ''b'', op_username = None\<rparr> 12])
     \<noteq> [0..<length (operations (run (DrawingState_new ''r'')
      [Call_addOperation \<lparr>op_type = ''draw'', op_data = (), op_userId = ''a'', op_username = None\<rparr> 10,
       Call_addOperation \<lparr>op_type = ''draw'', op_data = (), op_userId = ''a'', op_username = None\<rparr> 11,
       Call_undo,
       Call_addOperation \<lparr>op_type = ''draw'', op_data = (), op_userId = ''b'', op_username = None\<rparr> 12]))]"
  by (simp add: run_def log_ids_def DrawingState_new_def addOperation_def undo_def Let_def)

lemma undo_nonempty:
  "operations s \<noteq> [] \<Longrightarrow>
     undo s = (Some (last (operations s)), s\<lparr>operations := butlast (operations s)\<rparr>)"
  by (simp add: undo_def)

lemma undo_empty: "operations s = [] \<Longrightarrow> undo s = (None, s)"
  by (simp add: undo_def)

lemma log_inv_last_highest:
  assumes "log_inv s" and "operations s \<noteq> []"
  shows "\<forall>op \<in> set (butlast (operations s)). op_id op < op_id (last (operations s))"
proof (cases "operations s" rule: rev_cases)
  case Nil
  with assms show ?thesis by simp
next
  case (snoc ops op)
  with assms(1) show ?thesis
    by (auto simp: log_inv_def log_ids_def sorted_wrt_append)
qed

lemma log_inv_last_ge:
  assumes "log_inv s" and "operations s \<noteq> []"
  shows "length (operations s) - 1 \<le> op_id (last (operations s))"
proof -
  let ?n = "length (operations s) - 1"
  have lt: "?n < length (log_ids s)"
    using assms(2) by (simp add: log_ids_def)
  have "sorted_wrt (<) (log_ids s)"
    using assms(1) by (simp add: log_inv_def)
  then have "?n \<le> log_ids s ! ?n"
    using lt by (rule sorted_wrt_less_idx)
  also have "log_ids s ! ?n = op_id (last (operations s))"
    using assms(2) lt by (simp add: log_ids_def last_conv_nth)
  finally show ?thesis .
qed

text \<open>
  Claim C2, as amended. In every state a room reaches from its creation, \<^verbatim>\<open>undo\<close> on a
  log of length \<open>n > 0\<close> returns the last operation and leaves the log without it (length
  \<open>n - 1\<close>), the rest of the state unchanged. The returned operation has the highest
  identifier of the log, and that identifier is at least \<open>n - 1\<close>; it is \<open>n - 1\<close> if and only
  if no operation in the log was added after an \<^verbatim>\<open>undo\<close> that removed an operation since the
  last \<^verbatim>\<open>clear\<close>. On an empty log \<^verbatim>\<open>undo\<close> returns \<^verbatim>\<open>null\<close> and the state is unchanged.
\<close>

theorem undo_pops_last:
  assumes "s = run (DrawingState_new rid) calls"
  shows "(operations s \<noteq> [] \<longrightarrow>
            fst (undo s) = Some (last (operations s)) \<and>
            snd (undo s) = s\<lparr>operations := butlast (operations s)\<rparr> \<and>
            length (operations (snd (undo s))) = length (operations s) - 1 \<and>
            (\<forall>op \<in> set (operations (snd (undo s))). op_id op < op_id (last (operations s))) \<and>
            length (operations s) - 1 \<le> op_id (last (operations s)) \<and>
            (op_id (last (operations s)) = length (operations s) - 1)
              = (late (tally_of calls) = 0)) \<and>
         (operations s = [] \<longrightarrow> undo s = (None, s))"
proof -
  have inv: "log_inv s"
    unfolding assms by (rule log_inv_run [OF log_inv_new])
  have t: "tally_inv s (tally_of calls)"
    unfolding assms by (rule tally_inv_run)
  show ?thesis
    using log_inv_last_highest [OF inv] log_inv_last_ge [OF inv] tally_last [OF t]
    by (simp add: undo_nonempty undo_empty)
qed

theorem undo_pops_last_witness:
  "run (DrawingState_new ''r'')
      [Call_addOperation \<lparr>op_type = ''draw'', op_data = (), op_userId = ''a'', op_username = None\<rparr> 10,
       Call_addOperation \<lparr>op_type = ''draw'', op_data = (), op_userId = ''b'', op_username = None\<rparr> 11,
       Call_undo]
     = \<lparr>roomId = ''r'',
        operations =
          [\<lparr>op_type = ''draw'', op_data = (), op_userId = ''a'', op_username = None, op_id = 0, op_timestamp = 10\<rparr>],
        currentOperationId = 2, users = []\<rparr> \<and>
   tally_of
      [Call_addOperation \<lparr>op_type = ''draw'', op_data = (), op_userId = ''a'', op_username = None\<rparr> 10,
       Call_addOperation \<lparr>op_type = ''draw'', op_data = (), op_userId = ''b'', op_username = None\<rparr> 11,
       Call_undo]
     = \<lparr>in_log = 1, removed = 1, late = 0\<rparr> \<and>
   undo \<lparr>roomId = ''r'',
        operations =
          [\<lparr>op_type = ''draw'', op_data = (), op_userId = ''a'', op_username = None, op_id = 0, op_timestamp = 10\<rparr>],
        currentOperationId = 2, users = []\<rparr>
     = (Some \<lparr>op_type = ''draw'', op_data = (), op_userId = ''a'', op_username = None, op_id = 0, op_timestamp = 10\<rparr>,
        \<lparr>roomId = ''r'', operations = [], currentOperationId = 2, users = []\<rparr>)"
proof -
  have r: "\<lparr>roomId = ''r'',
        operations =
          [\<lparr>op_type = ''draw'', op_data = (), op_userId = ''a'', op_username = None, op_id = 0, op_timestamp = 10\<rparr>],
        currentOperationId = 2, users = []\<rparr>
     = run (DrawingState_new ''r'')
      [Call_addOperation \<lparr>op_type = ''draw'', op_data = (), op_userId = ''a'', op_username = None\<rparr> 10,
       Call_addOperation \<lparr>op_type = ''draw'', op_data = (), op_userId = ''b'', op_username = None\<rparr> 11,
       Call_undo]"
    by (simp add: run_def DrawingState_new_def addOperation_def undo_def Let_def)
  have t: "tally_of
      [Call_addOperation \<lparr>op_type = ''draw'', op_data = (), op_userId = ''a'', op_username = None\<rparr> 10,
       Call_addOperation \<lparr>op_type = ''draw'', op_data = (), op_userId = ''b'', op_username = None\<rparr> 11,
       Call_undo]
     = \<lparr>in_log = 1, removed = 1, late = 0\<rparr>"
    by (simp add: tally_of_def)
  have u: "undo \<lparr>roomId = ''r'',
        operations =
          [\<lparr>op_type = ''draw'', op_data = (), op_userId = ''a'', op_username = None, op_id = 0, op_timestamp = 10\<rparr>],
        currentOperationId = 2, users = []\<rparr>
     = (Some \<lparr>op_type = ''draw'', op_data = (), op_userId = ''a'', op_username = None, op_id = 0, op_timestamp = 10\<rparr>,
        \<lparr>roomId = ''r'', operations = [], currentOperationId = 2, users = []\<rparr>)"
    by (simp add: undo_def)
  show ?thesis
    using undo_pops_last [OF r] by (simp add: r [symmetric] t u)
qed

text \<open>
  Claim C2 as stated fails on the identifier: after two operations, an \<^verbatim>\<open>undo\<close> and one
  more operation the log has length 2 and \<^verbatim>\<open>undo\<close> returns the operation with identifier 2,
  not 1.
\<close>

theorem undo_id_above_length:
  "length (operations (run (DrawingState_new ''r'')
      [Call_addOperation \<lparr>op_type = ''draw'', op_data = (), op_userId = ''a'', op_username = None\<rparr> 10,
       Call_addOperation \<lparr>op_type = ''draw'', op_data = (), op_userId = ''a'', op_username = None\<rparr> 11,
       Call_undo,
       Call_addOperation \<lparr>op_type = ''draw'', op_data = (), op_userId = ''b'', op_username = None\<rparr> 12])) = 2 \<and>
   map_option op_id (fst (undo (run (DrawingState_new ''r'')
      [Call_addOperation \<lparr>op_type = ''draw'', op_data = (), op_userId = ''a'', op_username = None\<rparr> 10,
       Call_addOperation \<lparr>op_type = ''draw'', op_data = (), op_userId = ''a'', op_username = None\<rparr> 11,
       Call_undo,
       Call_addOperation \<lparr>op_type = ''draw'', op_data = (), op_userId = ''b'', op_username = None\<rparr> 12]))) = Some 2 \<and>
   map_option op_id (fst (undo (run (DrawingState_new ''r'')
      [Call_addOperation \<lparr>op_type = ''draw'', op_data = (), op_userId = ''a'', op_username = None\<rparr> 10,
       Call_addOperation \<lparr>op_type = ''draw'', op_data = (), op_userId = ''a'', op_username = None\<rparr> 11,
       Call_undo,
       Call_addOperation \<lparr>op_type = ''draw'', op_data = (), op_userId = ''b'', op_username = None\<rparr> 12])))
     \<noteq> Some (length (operations (run (DrawingState_new ''r'')
      [Call_addOperation \<lparr>op_type = ''draw'', op_data = (), op_userId = ''a'', op_username = None\<rparr> 10,
       Call_addOperation \<lparr>op_type = ''draw'', op_data = (), op_userId = ''a'', op_username = None\<rparr> 11,
       Call_undo,
       Call_addOperation \<lparr>op_type = ''draw'', op_data = (), op_userId = ''b'', op_username = None\<rparr> 12])) - 1)"
  by (simp add: run_def DrawingState_new_def addOperation_def undo_def Let_def)

lemma addOperations_gen:
  "map op_id (fst (addOperations s ps)) = [currentOperationId s ..< currentOperationId s + length ps] \<and>
   operations (snd (addOperations s ps)) = operations s @ fst (addOperations s ps)"
proof (induction ps arbitrary: s)
  case Nil
  then show ?case by simp
next
  case (Cons a ps)
  obtain p now where a: "a = (p, now)" by (cases a)
  let ?s1 = "snd (addOperation p now s)"
  have s1: "currentOperationId ?s1 = Suc (currentOperationId s)"
      "operations ?s1 = operations s @ [fst (addOperation p now s)]"
      "op_id (fst (addOperation p now s)) = currentOperationId s"
    by (simp_all add: addOperation_def Let_def)
  have u: "[currentOperationId s ..< currentOperationId s + length (a # ps)]
      = currentOperationId s # [Suc (currentOperationId s) ..< Suc (currentOperationId s) + length ps]"
  proof -
    have "currentOperationId s < currentOperationId s + length (a # ps)" by simp
    then have "[currentOperationId s ..< currentOperationId s + length (a # ps)]
        = currentOperationId s # [Suc (currentOperationId s) ..< currentOperationId s + length (a # ps)]"
      by (rule upt_conv_Cons)
    moreover have "currentOperationId s + length (a # ps) = Suc (currentOperationId s) + length ps"
      by simp
    ultimately show ?thesis by (simp only:)
  qed
  have unfold: "addOperations s (a # ps)
      = (fst (addOperation p now s) # fst (addOperations ?s1 ps), snd (addOperations ?s1 ps))"
    by (simp add: a split_beta)
  show ?case
    unfolding unfold u using Cons.IH [of ?s1] by (simp add: s1)
qed

text \<open>
  Claim C3. On a new room, and on a room that was just cleared, \<open>n\<close> consecutive
  \<^verbatim>\<open>addOperation\<close> calls return operations with the identifiers \<open>0, 1, ..., n - 1\<close> in call
  order, and the log then holds exactly the returned records in that order; each call
  appends the record it returns.
\<close>

theorem addOperations_ids:
  "map op_id (fst (addOperations (DrawingState_new rid) ps)) = [0..<length ps] \<and>
   operations (snd (addOperations (DrawingState_new rid) ps))
      = fst (addOperations (DrawingState_new rid) ps) \<and>
   map op_id (fst (addOperations (clear s) ps)) = [0..<length ps] \<and>
   operations (snd (addOperations (clear s) ps)) = fst (addOperations (clear s) ps) \<and>
   operations (snd (addOperation p now s)) = operations s @ [fst (addOperation p now s)]"
  using addOperations_gen [of "DrawingState_new rid" ps] addOperations_gen [of "clear s" ps]
  by (simp add: DrawingState_new_def clear_def addOperation_def Let_def)

text \<open>
  Claim C4. Whatever the state of a room, \<^verbatim>\<open>clear\<close> empties the log and sets the counter to
  0, and the next \<^verbatim>\<open>addOperation\<close> returns an operation with identifier 0.
\<close>

theorem clear_then_addOperation:
  "operations (clear s) = [] \<and> currentOperationId (clear s) = 0 \<and>
   op_id (fst (addOperation p now (clear s))) = 0"
  by (simp add: clear_def addOperation_def Let_def)

lemma ids_below_exec:
  "(\<forall>i \<in> set (log_ids s). i < currentOperationId s) \<Longrightarrow>
   (\<forall>i \<in> set (log_ids (exec s c)). i < currentOperationId (exec s c))"
  by (cases c)
     (auto simp: log_ids_def addOperation_def undo_def clear_def addUser_def removeUser_def Let_def
           dest: in_set_butlastD)

lemma assigned_ids_below:
  "\<not> list_ex is_clear calls \<Longrightarrow>
     currentOperationId s \<le> currentOperationId (run s calls) \<and>
     (\<forall>i \<in> set (assigned_ids s calls). i < currentOperationId (run s calls))"
proof (induction calls arbitrary: s)
  case Nil
  then show ?case by (simp add: run_Nil)
next
  case (Cons c cs)
  from Cons.prems have cs: "\<not> list_ex is_clear cs" and c: "\<not> is_clear c"
    by simp_all
  have le: "currentOperationId s \<le> currentOperationId (exec s c)"
    using c by (cases c) (simp_all add: addOperation_def undo_def addUser_def removeUser_def Let_def)
  have ids: "assigned_ids s (c # cs) = assigned_ids (exec s c) cs \<or>
      assigned_ids s (c # cs) = currentOperationId s # assigned_ids (exec s c) cs \<and>
      currentOperationId s < currentOperationId (exec s c)"
    by (cases c) (simp_all add: addOperation_def Let_def)
  show ?case
    using Cons.IH [OF cs, of "exec s c"] le ids by (auto simp: run_Cons)
qed

text \<open>
  Claim C9. The counter is a strict upper bound of the identifiers in the log: in every
  state a room reaches from its creation, and after any call on a state where it holds.
  In a history without \<^verbatim>\<open>clear\<close>, the identifier that the next \<^verbatim>\<open>addOperation\<close> returns is
  above every identifier returned before, those of undone operations included.
\<close>

theorem counter_bounds_ids:
  "(\<forall>i \<in> set (log_ids (run (DrawingState_new rid) calls)).
       i < currentOperationId (run (DrawingState_new rid) calls)) \<and>
   ((\<forall>i \<in> set (log_ids s). i < currentOperationId s) \<longrightarrow>
       (\<forall>i \<in> set (log_ids (exec s c)). i < currentOperationId (exec s c))) \<and>
   (\<not> list_ex is_clear calls \<longrightarrow>
       (\<forall>i \<in> set (assigned_ids (DrawingState_new rid) calls).
          i < op_id (fst (addOperation p now (run (DrawingState_new rid) calls)))))"
proof -
  have "log_inv (run (DrawingState_new rid) calls)"
    by (rule log_inv_run [OF log_inv_new])
  then show ?thesis
    using ids_below_exec [of s c] assigned_ids_below [of calls "DrawingState_new rid"]
    by (simp add: log_inv_def addOperation_def Let_def)
qed

theorem counter_bounds_ids_witness:
  "\<not> list_ex is_clear
      [Call_addOperation \<lparr>op_type = ''draw'', op_data = (), op_userId = ''a'', op_username = None\<rparr> 10,
       Call_addOperation \<lparr>op_type = ''draw'', op_data = (), op_userId = ''a'', op_username = None\<rparr> 11,
       Call_undo] \<and>
   assigned_ids (DrawingState_new ''r'')
      [Call_addOperation \<lparr>op_type = ''draw'', op_data = (), op_userId = ''a'', op_username = None\<rparr> 10,
       Call_addOperation \<lparr>op_type = ''draw'', op_data = (), op_userId = ''a'', op_username = None\<rparr> 11,
       Call_undo] = [0, 1] \<and>
   log_ids (run (DrawingState_new ''r'')
      [Call_addOperation \<lparr>op_type = ''draw'', op_data = (), op_userId = ''a'', op_username = None\<rparr> 10,
       Call_addOperation \<lparr>op_type = ''draw'', op_data = (), op_userId = ''a'', op_username = None\<rparr> 11,
       Call_undo]) = [0] \<and>
   op_id (fst (addOperation \<lparr>op_type = ''draw'', op_data = (), op_userId = ''b'', op_username = None\<rparr> 12
     (run (DrawingState_new ''r'')
      [Call_addOperation \<lparr>op_type = ''draw'', op_data = (), op_userId = ''a'', op_username = None\<rparr> 10,
       Call_addOperation \<lparr>op_type = ''draw'', op_data = (), op_userId = ''a'', op_username = None\<rparr> 11,
       Call_undo]))) = 2 \<and>
   log_ids \<lparr>roomId = ''r'', operations = [\<lparr>op_type = ''draw'', op_data = (), op_userId = ''a'', op_username = None, op_id = 0, op_timestamp = 10\<rparr>], currentOperationId = 1, users = []\<rparr> = [0] \<and>
   currentOperationId \<lparr>roomId = ''r'', operations = [\<lparr>op_type = ''draw'', op_data = (), op_userId = ''a'', op_username = None, op_id = 0, op_timestamp = 10\<rparr>], currentOperationId = 1, users = []\<rparr> = 1 \<and>
   log_ids (exec \<lparr>roomId = ''r'', operations = [\<lparr>op_type = ''draw'', op_data = (), op_userId = ''a'', op_username = None, op_id = 0, op_timestamp = 10\<rparr>], currentOperationId = 1, users = []\<rparr>
      (Call_addOperation \<lparr>op_type = ''draw'', op_data = (), op_userId = ''b'', op_username = None\<rparr> 12)) = [0, 1]"
  using counter_bounds_ids [of "''r''"
      "[Call_addOperation \<lparr>op_type = ''draw'', op_data = (), op_userId = ''a'', op_username = None\<rparr> 10,
       Call_addOperation \<lparr>op_type = ''draw'', op_data = (), op_userId = ''a'', op_username = None\<rparr> 11,
       Call_undo]"
      "\<lparr>roomId = ''r'', operations = [\<lparr>op_type = ''draw'', op_data = (), op_userId = ''a'', op_username = None, op_id = 0, op_timestamp = 10\<rparr>], currentOperationId = 1, users = []\<rparr>"
      "Call_addOperation \<lparr>op_type = ''draw'', op_data = (), op_userId = ''b'', op_username = None\<rparr> 12"
      "\<lparr>op_type = ''draw'', op_data = (), op_userId = ''b'', op_username = None\<rparr>" 12]
  by (simp add: run_def log_ids_def DrawingState_new_def addOperation_def undo_def Let_def)

text \<open>
  Claim C10. \<^verbatim>\<open>clear\<close> changes the log and the counter only: the \<^verbatim>\<open>users\<close> map with every
  stored record, and the room identifier, are as before.
\<close>

theorem clear_frame:
  "users (clear s) = users s \<and> roomId (clear s) = roomId s \<and>
   getUsers (clear s) = getUsers s \<and> getUser (clear s) uid = getUser s uid \<and>
   clear s = s\<lparr>operations := [], currentOperationId := 0\<rparr>"
  by (simp add: clear_def getUsers_def getUser_def)

section \<open>Lookups in insertion-ordered maps\<close>

lemma Map_get_set: "Map_get (Map_set k v m) k' = (if k' = k then Some v else Map_get m k')"
  by (simp add: Map_get_def Map_set_def update_conv')

lemma Map_get_delete: "Map_get (Map_delete k m) k' = (if k' = k then None else Map_get m k')"
  by (simp add: Map_get_def Map_delete_def delete_conv')

lemma Map_has_get: "Map_has m k = (Map_get m k \<noteq> None)"
  by (simp add: Map_has_def Map_get_def split: option.splits)

lemma Map_set_same: "Map_get m k = Some v \<Longrightarrow> Map_set k v m = m"
  by (simp add: Map_get_def Map_set_def update_triv)

lemma Map_has_set: "Map_has (Map_set k v m) k' = (k' = k \<or> Map_has m k')"
  by (simp add: Map_has_get Map_get_set)

lemma Map_has_delete: "Map_has (Map_delete k m) k' = (k' \<noteq> k \<and> Map_has m k')"
  by (simp add: Map_has_get Map_get_delete)

lemma Map_has_Nil: "Map_has [] k = False"
  by (simp add: Map_has_def)

lemma distinct_Map_set: "distinct (map fst m) \<Longrightarrow> distinct (map fst (Map_set k v m))"
  by (simp add: Map_set_def distinct_update)

lemma distinct_Map_delete: "distinct (map fst m) \<Longrightarrow> distinct (map fst (Map_delete k m))"
  by (simp add: Map_delete_def distinct_delete)

lemma Map_get_fold_delete:
  "Map_get (fold Map_delete ks m) r = (if r \<in> set ks then None else Map_get m r)"
  by (induction ks arbitrary: m) (auto simp: Map_get_delete)

lemma distinct_fold_delete:
  "distinct (map fst m) \<Longrightarrow> distinct (map fst (fold Map_delete ks m))"
  by (induction ks arbitrary: m) (auto simp: distinct_Map_delete)

section \<open>The room store\<close>

lemma Map_delete_filter: "Map_delete k m = filter (\<lambda>e. fst e \<noteq> k) m"
  by (induction m) (auto simp: Map_delete_def)

text \<open>
  Claim C7. \<^verbatim>\<open>removeRoom\<close> deletes the entry of a room exactly when the room is stored and
  its \<^verbatim>\<open>users\<close> map is empty: then it returns true, the key is gone and every other entry
  stays, in order. When the room has a user or is not stored, it returns false and the
  store is unchanged.
\<close>

theorem removeRoom_iff_empty:
  "((\<exists>room. getRoom rm rid = Some room \<and> Map_size (users room) = 0) \<longrightarrow>
      fst (removeRoom rid rm) \<and>
      getRoom (snd (removeRoom rid rm)) rid = None \<and>
      rooms (snd (removeRoom rid rm)) = filter (\<lambda>e. fst e \<noteq> rid) (rooms rm) \<and>
      (\<forall>r. r \<noteq> rid \<longrightarrow> getRoom (snd (removeRoom rid rm)) r = getRoom rm r)) \<and>
   (\<not> (\<exists>room. getRoom rm rid = Some room \<and> Map_size (users room) = 0) \<longrightarrow>
      removeRoom rid rm = (False, rm))"
proof (cases "getRoom rm rid")
  case None
  then show ?thesis by (simp add: removeRoom_def getRoom_def)
next
  case (Some room)
  show ?thesis
  proof (cases "Map_size (users room) = 0")
    case True
    with Some have "removeRoom rid rm = (True, rm\<lparr>rooms := Map_delete rid (rooms rm)\<rparr>)"
      by (simp add: removeRoom_def getRoom_def)
    with Some True show ?thesis
      by (simp add: getRoom_def Map_get_delete Map_delete_filter [symmetric])
  next
    case False
    with Some show ?thesis by (simp add: removeRoom_def getRoom_def)
  qed
qed

theorem removeRoom_iff_empty_witness:
  "removeRoom ''a''
     (\<lparr>rooms =
        [(''a'', \<lparr>roomId = ''a'', operations = [], currentOperationId = 3, users = []\<rparr>),
         (''b'', \<lparr>roomId = ''b'', operations = [], currentOperationId = 0,
                 users = [(''x'', \<lparr>userId = ''x'', username = ''u'', color = ''#FF6B6B'',
                                   joinedAt = 7\<rparr>)]\<rparr>)]\<rparr> :: unit RoomManager)
     = (True, \<lparr>rooms =
        [(''b'', \<lparr>roomId = ''b'', operations = [], currentOperationId = 0,
                 users = [(''x'', \<lparr>userId = ''x'', username = ''u'', color = ''#FF6B6B'',
                                   joinedAt = 7\<rparr>)]\<rparr>)]\<rparr>) \<and>
   removeRoom ''b''
     (\<lparr>rooms =
        [(''a'', \<lparr>roomId = ''a'', operations = [], currentOperationId = 3, users = []\<rparr>),
         (''b'', \<lparr>roomId = ''b'', operations = [], currentOperationId = 0,
                 users = [(''x'', \<lparr>userId = ''x'', username = ''u'', color = ''#FF6B6B'',
                                   joinedAt = 7\<rparr>)]\<rparr>)]\<rparr> :: unit RoomManager)
     = (False, \<lparr>rooms =
        [(''a'', \<lparr>roomId = ''a'', operations = [], currentOperationId = 3, users = []\<rparr>),
         (''b'', \<lparr>roomId = ''b'', operations = [], currentOperationId = 0,
                 users = [(''x'', \<lparr>userId = ''x'', username = ''u'', color = ''#FF6B6B'',
                                   joinedAt = 7\<rparr>)]\<rparr>)]\<rparr>) \<and>
   removeRoom ''c''
     (\<lparr>rooms =
        [(''a'', \<lparr>roomId = ''a'', operations = [], currentOperationId = 3, users = []\<rparr>),
         (''b'', \<lparr>roomId = ''b'', operations = [], currentOperationId = 0,
                 users = [(''x'', \<lparr>userId = ''x'', username = ''u'', color = ''#FF6B6B'',
                                   joinedAt = 7\<rparr>)]\<rparr>)]\<rparr> :: unit RoomManager)
     = (False, \<lparr>rooms =
        [(''a'', \<lparr>roomId = ''a'', operations = [], currentOperationId = 3, users = []\<rparr>),
         (''b'', \<lparr>roomId = ''b'', operations = [], currentOperationId = 0,
                 users = [(''x'', \<lparr>userId = ''x'', username = ''u'', color = ''#FF6B6B'',
                                   joinedAt = 7\<rparr>)]\<rparr>)]\<rparr>)"
  using removeRoom_iff_empty [of "\<lparr>rooms =
        [(''a'', \<lparr>roomId = ''a'', operations = [], currentOperationId = 3, users = []\<rparr>),
         (''b'', \<lparr>roomId = ''b'', operations = [], currentOperationId = 0,
                 users = [(''x'', \<lparr>userId = ''x'', username = ''u'', color = ''#FF6B6B'',
                                   joinedAt = 7\<rparr>)]\<rparr>)]\<rparr> :: unit RoomManager" "''a''"]
    removeRoom_iff_empty [of "\<lparr>rooms =
        [(''a'', \<lparr>roomId = ''a'', operations = [], currentOperationId = 3, users = []\<rparr>),
         (''b'', \<lparr>roomId = ''b'', operations = [], currentOperationId = 0,
                 users = [(''x'', \<lparr>userId = ''x'', username = ''u'', color = ''#FF6B6B'',
                                   joinedAt = 7\<rparr>)]\<rparr>)]\<rparr> :: unit RoomManager" "''b''"]
    removeRoom_iff_empty [of "\<lparr>rooms =
        [(''a'', \<lparr>roomId = ''a'', operations = [], currentOperationId = 3, users = []\<rparr>),
         (''b'', \<lparr>roomId = ''b'', operations = [], currentOperationId = 0,
                 users = [(''x'', \<lparr>userId = ''x'', username = ''u'', color = ''#FF6B6B'',
                                   joinedAt = 7\<rparr>)]\<rparr>)]\<rparr> :: unit RoomManager" "''c''"]
  by (simp add: getRoom_def Map_get_def Map_size_def prod_eq_iff)

section \<open>Commands of a connection that has not joined\<close>

text \<open>
  Claim C6. For a live connection whose closure has no room (no join has bound it), the
  events \<^verbatim>\<open>draw\<close>, \<^verbatim>\<open>cursor-move\<close>, \<^verbatim>\<open>undo\<close> and \<^verbatim>\<open>clear-canvas\<close> leave the whole server state
  as it is (every room's log and \<^verbatim>\<open>users\<close> map included) and emit nothing; each handler
  returns at its first test.
\<close>

theorem unbound_commands_ignored:
  assumes "Map_get (sockets s) sid = Some c" and "currentRoom c = None"
  shows "step s (Ev_draw sid data now) = (s, []) \<and>
         step s (Ev_cursor_move sid x y) = (s, []) \<and>
         step s (Ev_undo sid) = (s, []) \<and>
         step s (Ev_clear_canvas sid) = (s, []) \<and>
         on_draw sid data now c g = (c, g, []) \<and>
         on_cursor_move sid x y c g = (c, g, []) \<and>
         on_undo sid c g = (c, g, []) \<and>
         on_clear_canvas sid c g = (c, g, [])"
  using assms
  by (simp add: dispatch_def on_draw_def on_cursor_move_def on_undo_def on_clear_canvas_def
        Map_set_same)

theorem unbound_commands_ignored_witness:
  "fst (run_server server_init
       [Ev_connection ''y'',
        Ev_join_room ''y'' \<lparr>jd_roomId = Some ''a'', jd_username = Some ''u''\<rparr> ''g'' 2,
        Ev_draw ''y'' () 3,
        Ev_connection ''x''])
     = (\<lparr>globals =
          \<lparr>roomManager =
             \<lparr>rooms =
                [(''a'', \<lparr>roomId = ''a'',
                          operations =
                            [\<lparr>op_type = ''draw'', op_data = (), op_userId = ''y'',
                              op_username = Some ''u'', op_id = 0, op_timestamp = 3\<rparr>],
                          currentOperationId = 1,
                          users = [(''y'', \<lparr>userId = ''y'', username = ''u'',
                                            color = ''#FF6B6B'', joinedAt = 2\<rparr>)]\<rparr>)]\<rparr>,
           colorIndex = 1\<rparr>,
        sockets =
          [(''y'', \<lparr>currentRoom = Some ''a'',
                    userInfo = Some \<lparr>userId = ''y'', username = ''u'', color = ''#FF6B6B''\<rparr>\<rparr>),
           (''x'', \<lparr>currentRoom = None, userInfo = None\<rparr>)]\<rparr> :: unit server) \<and>
   Map_get (sockets (\<lparr>globals =
          \<lparr>roomManager =
             \<lparr>rooms =
                [(''a'', \<lparr>roomId = ''a'',
                          operations =
                            [\<lparr>op_type = ''draw'', op_data = (), op_userId = ''y'',
                              op_username = Some ''u'', op_id = 0, op_timestamp = 3\<rparr>],
                          currentOperationId = 1,
                          users = [(''y'', \<lparr>userId = ''y'', username = ''u'',
                                            color = ''#FF6B6B'', joinedAt = 2\<rparr>)]\<rparr>)]\<rparr>,
           colorIndex = 1\<rparr>,
        sockets =
          [(''y'', \<lparr>currentRoom = Some ''a'',
                    userInfo = Some \<lparr>userId = ''y'', username = ''u'', color = ''#FF6B6B''\<rparr>\<rparr>),
           (''x'', \<lparr>currentRoom = None, userInfo = None\<rparr>)]\<rparr> :: unit server)) ''x''
     = Some \<lparr>currentRoom = None, userInfo = None\<rparr> \<and>
   step (\<lparr>globals =
          \<lparr>roomManager =
             \<lparr>rooms =
                [(''a'', \<lparr>roomId = ''a'',
                          operations =
                            [\<lparr>op_type = ''draw'', op_data = (), op_userId = ''y'',
                              op_username = Some ''u'', op_id = 0, op_timestamp = 3\<rparr>],
                          currentOperationId = 1,
                          users = [(''y'', \<lparr>userId = ''y'', username = ''u'',
                                            color = ''#FF6B6B'', joinedAt = 2\<rparr>)]\<rparr>)]\<rparr>,
           colorIndex = 1\<rparr>,
        sockets =
          [(''y'', \<lparr>currentRoom = Some ''a'',
                    userInfo = Some \<lparr>userId = ''y'', username = ''u'', color = ''#FF6B6B''\<rparr>\<rparr>),
           (''x'', \<lparr>currentRoom = None, userInfo = None\<rparr>)]\<rparr> :: unit server) (Ev_draw ''x'' () 4)
     = (\<lparr>globals =
          \<lparr>roomManager =
             \<lparr>rooms =
                [(''a'', \<lparr>roomId = ''a'',
                          operations =
                            [\<lparr>op_type = ''draw'', op_data = (), op_userId = ''y'',
                              op_username = Some ''u'', op_id = 0, op_timestamp = 3\<rparr>],
                          currentOperationId = 1,
                          users = [(''y'', \<lparr>userId = ''y'', username = ''u'',
                                            color = ''#FF6B6B'', joinedAt = 2\<rparr>)]\<rparr>)]\<rparr>,
           colorIndex = 1\<rparr>,
        sockets =
          [(''y'', \<lparr>currentRoom = Some ''a'',
                    userInfo = Some \<lparr>userId = ''y'', username = ''u'', color = ''#FF6B6B''\<rparr>\<rparr>),
           (''x'', \<lparr>currentRoom = None, userInfo = None\<rparr>)]\<rparr>, []) \<and>
   step (\<lparr>globals =
          \<lparr>roomManager =
             \<lparr>rooms =
                [(''a'', \<lparr>roomId = ''a'',
                          operations =
                            [\<lparr>op_type = ''draw'', op_data = (), op_userId = ''y'',
                              op_username = Some ''u'', op_id = 0, op_timestamp = 3\<rparr>],
                          currentOperationId = 1,
                          users = [(''y'', \<lparr>userId = ''y'', username = ''u'',
                                            color = ''#FF6B6B'', joinedAt = 2\<rparr>)]\<rparr>)]\<rparr>,
           colorIndex = 1\<rparr>,
        sockets =
          [(''y'', \<lparr>currentRoom = Some ''a'',
                    userInfo = Some \<lparr>userId = ''y'', username = ''u'', color = ''#FF6B6B''\<rparr>\<rparr>),
           (''x'', \<lparr>currentRoom = None, userInfo = None\<rparr>)]\<rparr> :: unit server) (Ev_undo ''x'')
     = (\<lparr>globals =
          \<lparr>roomManager =
             \<lparr>rooms =
                [(''a'', \<lparr>roomId = ''a'',
                          operations =
                            [\<lparr>op_type = ''draw'', op_data = (), op_userId = ''y'',
                              op_username = Some ''u'', op_id = 0, op_timestamp = 3\<rparr>],
                          currentOperationId = 1,
                          users = [(''y'', \<lparr>userId = ''y'', username = ''u'',
                                            color = ''#FF6B6B'', joinedAt = 2\<rparr>)]\<rparr>)]\<rparr>,
           colorIndex = 1\<rparr>,
        sockets =
          [(''y'', \<lparr>currentRoom = Some ''a'',
                    userInfo = Some \<lparr>userId = ''y'', username = ''u'', color = ''#FF6B6B''\<rparr>\<rparr>),
           (''x'', \<lparr>currentRoom = None, userInfo = None\<rparr>)]\<rparr>, []) \<and>
   step (\<lparr>globals =
          \<lparr>roomManager =
             \<lparr>rooms =
                [(''a'', \<lparr>roomId = ''a'',
                          operations =
                            [\<lparr>op_type = ''draw'', op_data = (), op_userId = ''y'',
                              op_username = Some ''u'', op_id = 0, op_timestamp = 3\<rparr>],
                          currentOperationId = 1,
                          users = [(''y'', \<lparr>userId = ''y'', username = ''u'',
                                            color = ''#FF6B6B'', joinedAt = 2\<rparr>)]\<rparr>)]\<rparr>,
           colorIndex = 1\<rparr>,
        sockets =
          [(''y'', \<lparr>currentRoom = Some ''a'',
                    userInfo = Some \<lparr>userId = ''y'', username = ''u'', color = ''#FF6B6B''\<rparr>\<rparr>),
           (''x'', \<lparr>currentRoom = None, userInfo = None\<rparr>)]\<rparr> :: unit server) (Ev_clear_canvas ''x'')
     = (\<lparr>globals =
          \<lparr>roomManager =
             \<lparr>rooms =
                [(''a'', \<lparr>roomId = ''a'',
                          operations =
                            [\<lparr>op_type = ''draw'', op_data = (), op_userId = ''y'',
                              op_username = Some ''u'', op_id = 0, op_timestamp = 3\<rparr>],
                          currentOperationId = 1,
                          users = [(''y'', \<lparr>userId = ''y'', username = ''u'',
                                            color = ''#FF6B6B'', joinedAt = 2\<rparr>)]\<rparr>)]\<rparr>,
           colorIndex = 1\<rparr>,
        sockets =
          [(''y'', \<lparr>currentRoom = Some ''a'',
                    userInfo = Some \<lparr>userId = ''y'', username = ''u'', color = ''#FF6B6B''\<rparr>\<rparr>),
           (''x'', \<lparr>currentRoom = None, userInfo = None\<rparr>)]\<rparr>, []) \<and>
   step (\<lparr>globals =
          \<lparr>roomManager =
             \<lparr>rooms =
                [(''a'', \<lparr>roomId = ''a'',
                          operations =
                            [\<lparr>op_type = ''draw'', op_data = (), op_userId = ''y'',
                              op_username = Some ''u'', op_id = 0, op_timestamp = 3\<rparr>],
                          currentOperationId = 1,
                          users = [(''y'', \<lparr>userId = ''y'', username = ''u'',
                                            color = ''#FF6B6B'', joinedAt = 2\<rparr>)]\<rparr>)]\<rparr>,
           colorIndex = 1\<rparr>,
        sockets =
          [(''y'', \<lparr>currentRoom = Some ''a'',
                    userInfo = Some \<lparr>userId = ''y'', username = ''u'', color = ''#FF6B6B''\<rparr>\<rparr>),
           (''x'', \<lparr>currentRoom = None, userInfo = None\<rparr>)]\<rparr> :: unit server) (Ev_cursor_move ''x'' 1 2)
     = (\<lparr>globals =
          \<lparr>roomManager =
             \<lparr>rooms =
                [(''a'', \<lparr>roomId = ''a'',
                          operations =
                            [\<lparr>op_type = ''draw'', op_data = (), op_userId = ''y'',
                              op_username = Some ''u'', op_id = 0, op_timestamp = 3\<rparr>],
                          currentOperationId = 1,
                          users = [(''y'', \<lparr>userId = ''y'', username = ''u'',
                                            color = ''#FF6B6B'', joinedAt = 2\<rparr>)]\<rparr>)]\<rparr>,
           colorIndex = 1\<rparr>,
        sockets =
          [(''y'', \<lparr>currentRoom = Some ''a'',
                    userInfo = Some \<lparr>userId = ''y'', username = ''u'', color = ''#FF6B6B''\<rparr>\<rparr>),
           (''x'', \<lparr>currentRoom = None, userInfo = None\<rparr>)]\<rparr>, [])"
proof -
  have reach: "fst (run_server server_init
       [Ev_connection ''y'',
        Ev_join_room ''y'' \<lparr>jd_roomId = Some ''a'', jd_username = Some ''u''\<rparr> ''g'' 2,
        Ev_draw ''y'' () 3,
        Ev_connection ''x''])
     = (\<lparr>globals =
          \<lparr>roomManager =
             \<lparr>rooms =
                [(''a'', \<lparr>roomId = ''a'',
                          operations =
                            [\<lparr>op_type = ''draw'', op_data = (), op_userId = ''y'',
                              op_username = Some ''u'', op_id = 0, op_timestamp = 3\<rparr>],
                          currentOperationId = 1,
                          users = [(''y'', \<lparr>userId = ''y'', username = ''u'',
                                            color = ''#FF6B6B'', joinedAt = 2\<rparr>)]\<rparr>)]\<rparr>,
           colorIndex = 1\<rparr>,
        sockets =
          [(''y'', \<lparr>currentRoom = Some ''a'',
                    userInfo = Some \<lparr>userId = ''y'', username = ''u'', color = ''#FF6B6B''\<rparr>\<rparr>),
           (''x'', \<lparr>currentRoom = None, userInfo = None\<rparr>)]\<rparr> :: unit server)"
    by (simp add: server_init_def RoomManager_new_def dispatch_def on_join_room_def
          join_room_leave_def join_room_enter_def on_draw_def getOrCreateRoom_def getRoom_def
          put_room_def addUser_def addOperation_def getAllOperations_def getUsers_def
          DrawingState_new_def Map_get_def Map_has_def Map_set_def Map_values_def
          USER_COLORS_def Let_def)
  have live: "Map_get (sockets (\<lparr>globals =
          \<lparr>roomManager =
             \<lparr>rooms =
                [(''a'', \<lparr>roomId = ''a'',
                          operations =
                            [\<lparr>op_type = ''draw'', op_data = (), op_userId = ''y'',
                              op_username = Some ''u'', op_id = 0, op_timestamp = 3\<rparr>],
                          currentOperationId = 1,
                          users = [(''y'', \<lparr>userId = ''y'', username = ''u'',
                                            color = ''#FF6B6B'', joinedAt = 2\<rparr>)]\<rparr>)]\<rparr>,
           colorIndex = 1\<rparr>,
        sockets =
          [(''y'', \<lparr>currentRoom = Some ''a'',
                    userInfo = Some \<lparr>userId = ''y'', username = ''u'', color = ''#FF6B6B''\<rparr>\<rparr>),
           (''x'', \<lparr>currentRoom = None, userInfo = None\<rparr>)]\<rparr> :: unit server)) ''x''
     = Some \<lparr>currentRoom = None, userInfo = None\<rparr>"
    by (simp add: Map_get_def)
  have unbound: "currentRoom \<lparr>currentRoom = None, userInfo = None\<rparr> = None"
    by simp
  show ?thesis
    using unbound_commands_ignored [OF live unbound, of "()" 4 1 2] reach live
    by simp
qed

section \<open>Colour assignment\<close>

lemma join_colors_append: "join_colors (fx @ fy) = join_colors fx @ join_colors fy"
  by (induction fx rule: join_colors.induct) simp_all

lemma join_room_leave_color:
  "colorIndex (fst (join_room_leave sid c g)) = colorIndex g \<and>
   join_colors (snd (join_room_leave sid c g)) = []"
  by (simp add: join_room_leave_def split: option.splits)

lemma join_room_enter_color:
  "colorIndex (fst (snd (join_room_enter sid data gen now g))) = Suc (colorIndex g) \<and>
   join_colors (snd (snd (join_room_enter sid data gen now g)))
     = [USER_COLORS ! (colorIndex g mod 12)]"
  by (simp add: join_room_enter_def Let_def split_beta USER_COLORS_def)

lemma on_join_room_color:
  "colorIndex (fst (snd (on_join_room sid data gen now c g))) = Suc (colorIndex g) \<and>
   join_colors (snd (snd (on_join_room sid data gen now c g)))
     = [USER_COLORS ! (colorIndex g mod 12)]"
  using join_room_leave_color [of sid c g]
    join_room_enter_color [of sid data gen now "fst (join_room_leave sid c g)"]
  by (simp add: on_join_room_def split_beta join_colors_append)

lemma on_draw_color:
  "colorIndex (fst (snd (on_draw sid data now c g))) = colorIndex g \<and>
   join_colors (snd (snd (on_draw sid data now c g))) = []"
  by (simp add: on_draw_def split_beta Let_def split: option.splits)

lemma on_cursor_move_color:
  "colorIndex (fst (snd (on_cursor_move sid x y c g))) = colorIndex g \<and>
   join_colors (snd (snd (on_cursor_move sid x y c g))) = []"
  by (simp add: on_cursor_move_def split: option.splits)

lemma on_undo_color:
  "colorIndex (fst (snd (on_undo sid c g))) = colorIndex g \<and>
   join_colors (snd (snd (on_undo sid c g))) = []"
  by (simp add: on_undo_def split_beta Let_def split: option.splits)

lemma on_clear_canvas_color:
  "colorIndex (fst (snd (on_clear_canvas sid c g))) = colorIndex g \<and>
   join_colors (snd (snd (on_clear_canvas sid c g))) = []"
  by (simp add: on_clear_canvas_def split: option.splits)

lemma on_disconnect_color:
  "colorIndex (fst (snd (on_disconnect sid c g))) = colorIndex g \<and>
   join_colors (snd (snd (on_disconnect sid c g))) = []"
  by (simp add: on_disconnect_def Let_def split: option.splits)

lemma dispatch_color:
  assumes "\<And>c. colorIndex (fst (snd (h c (globals s)))) = colorIndex (globals s) + k \<and>
                 join_colors (snd (snd (h c (globals s)))) = cs"
  shows "colorIndex (globals (fst (dispatch sid h s)))
           = colorIndex (globals s) + (if Map_has (sockets s) sid then k else 0) \<and>
         join_colors (snd (dispatch sid h s)) = (if Map_has (sockets s) sid then cs else [])"
  using assms by (simp add: dispatch_def Map_has_get split_beta split: option.splits)

lemma step_color:
  "colorIndex (globals (fst (step s e)))
     = colorIndex (globals s) + (if join_handled s e then 1 else 0) \<and>
   join_colors (snd (step s e))
     = (if join_handled s e then [USER_COLORS ! (colorIndex (globals s) mod 12)] else [])"
proof (cases e)
  case (Ev_connection sid)
  then show ?thesis by simp
next
  case (Ev_join_room sid data gen now)
  show ?thesis
    unfolding Ev_join_room step.simps join_handled.simps
    using dispatch_color [of "on_join_room sid data gen now" s 1
        "[USER_COLORS ! (colorIndex (globals s) mod 12)]" sid]
    by (simp add: on_join_room_color)
next
  case (Ev_draw sid data now)
  show ?thesis
    unfolding Ev_draw step.simps join_handled.simps
    using dispatch_color [of "on_draw sid data now" s 0 "[]" sid]
    by (simp add: on_draw_color)
next
  case (Ev_cursor_move sid x y)
  show ?thesis
    unfolding Ev_cursor_move step.simps join_handled.simps
    using dispatch_color [of "on_cursor_move sid x y" s 0 "[]" sid]
    by (simp add: on_cursor_move_color)
next
  case (Ev_undo sid)
  show ?thesis
    unfolding Ev_undo step.simps join_handled.simps
    using dispatch_color [of "on_undo sid" s 0 "[]" sid]
    by (simp add: on_undo_color)
next
  case (Ev_clear_canvas sid)
  show ?thesis
    unfolding Ev_clear_canvas step.simps join_handled.simps
    using dispatch_color [of "on_clear_canvas sid" s 0 "[]" sid]
    by (simp add: on_clear_canvas_color)
next
  case (Ev_disconnect sid)
  show ?thesis
    unfolding Ev_disconnect step.simps join_handled.simps
    using dispatch_color [of "on_disconnect sid" s 0 "[]" sid]
    by (simp add: on_disconnect_color split_beta)
next
  case (Ev_timeout r)
  then show ?thesis by simp
next
  case Ev_interval
  then show ?thesis by simp
qed

lemma run_server_colors:
  "join_colors (snd (run_server s evs))
     = map (\<lambda>k. USER_COLORS ! ((colorIndex (globals s) + k) mod 12)) [0..<handled_joins s evs] \<and>
   colorIndex (globals (fst (run_server s evs))) = colorIndex (globals s) + handled_joins s evs"
proof (induction evs arbitrary: s)
  case Nil
  then show ?case by simp
next
  case (Cons e es)
  note st = step_color [of s e]
  note ih = Cons.IH [of "fst (step s e)"]
  show ?case
  proof (cases "join_handled s e")
    case True
    with st ih show ?thesis
      by (simp add: split_beta join_colors_append map_upt_Suc del: upt_Suc)
  next
    case False
    with st ih show ?thesis
      by (simp add: split_beta join_colors_append)
  qed
qed

text \<open>
  Claim C8. Whatever events the server has processed, for whichever connections and
  rooms, the colours it assigned (one per handled join, read off the \<^verbatim>\<open>init-state\<close>
  messages in order) are the palette entries \<open>k mod 12\<close> for \<open>k = 0, 1, 2, ...\<close>, and
  \<^verbatim>\<open>colorIndex\<close> is the number of joins handled so far. The palette has 12 entries.
\<close>

theorem colors_round_robin:
  "join_colors (snd (run_server server_init evs))
     = map (\<lambda>k. USER_COLORS ! (k mod 12)) [0..<handled_joins server_init evs] \<and>
   colorIndex (globals (fst (run_server server_init evs))) = handled_joins server_init evs \<and>
   length USER_COLORS = 12"
  using run_server_colors [of server_init evs]
  by (simp add: server_init_def USER_COLORS_def)

theorem colors_round_robin_witness:
  "handled_joins (server_init :: unit server)
       [Ev_connection ''x'', Ev_connection ''y'',
        Ev_join_room ''x'' \<lparr>jd_roomId = Some ''a'', jd_username = Some ''u''\<rparr> ''g'' 1,
        Ev_join_room ''y'' \<lparr>jd_roomId = Some ''b'', jd_username = None\<rparr> ''g'' 2,
        Ev_join_room ''z'' \<lparr>jd_roomId = Some ''b'', jd_username = None\<rparr> ''g'' 3,
        Ev_join_room ''x'' \<lparr>jd_roomId = None, jd_username = None\<rparr> ''g'' 4] = 3 \<and>
   join_colors (snd (run_server (server_init :: unit server)
       [Ev_connection ''x'', Ev_connection ''y'',
        Ev_join_room ''x'' \<lparr>jd_roomId = Some ''a'', jd_username = Some ''u''\<rparr> ''g'' 1,
        Ev_join_room ''y'' \<lparr>jd_roomId = Some ''b'', jd_username = None\<rparr> ''g'' 2,
        Ev_join_room ''z'' \<lparr>jd_roomId = Some ''b'', jd_username = None\<rparr> ''g'' 3,
        Ev_join_room ''x'' \<lparr>jd_roomId = None, jd_username = None\<rparr> ''g'' 4]))
     = [''#FF6B6B'', ''#4ECDC4'', ''#45B7D1'']"
proof -
  have n: "handled_joins (server_init :: unit server)
       [Ev_connection ''x'', Ev_connection ''y'',
        Ev_join_room ''x'' \<lparr>jd_roomId = Some ''a'', jd_username = Some ''u''\<rparr> ''g'' 1,
        Ev_join_room ''y'' \<lparr>jd_roomId = Some ''b'', jd_username = None\<rparr> ''g'' 2,
        Ev_join_room ''z'' \<lparr>jd_roomId = Some ''b'', jd_username = None\<rparr> ''g'' 3,
        Ev_join_room ''x'' \<lparr>jd_roomId = None, jd_username = None\<rparr> ''g'' 4] = 3"
    by (simp add: server_init_def RoomManager_new_def dispatch_def on_join_room_def
          join_room_leave_def join_room_enter_def getOrCreateRoom_def getRoom_def
          put_room_def addUser_def removeUser_def getAllOperations_def getUsers_def
          DrawingState_new_def Map_get_def Map_has_def Map_set_def Map_delete_def
          Map_values_def USER_COLORS_def Let_def)
  have upt3: "[0..<3] = [0, 1, 2::nat]"
    by (simp add: upt_rec)
  show ?thesis
    using colors_round_robin [of "[Ev_connection ''x'', Ev_connection ''y'',
        Ev_join_room ''x'' \<lparr>jd_roomId = Some ''a'', jd_username = Some ''u''\<rparr> ''g'' 1,
        Ev_join_room ''y'' \<lparr>jd_roomId = Some ''b'', jd_username = None\<rparr> ''g'' 2,
        Ev_join_room ''z'' \<lparr>jd_roomId = Some ''b'', jd_username = None\<rparr> ''g'' 3,
        Ev_join_room ''x'' \<lparr>jd_roomId = None, jd_username = None\<rparr> ''g'' 4] :: unit event list"] n
    by (simp add: upt3 USER_COLORS_def)
qed

section \<open>Room membership of a connection\<close>

lemma is_member_rm:
  "is_member (g\<lparr>roomManager := rm\<rparr>) r sid
     = (case Map_get (rooms rm) r of None \<Rightarrow> False | Some room \<Rightarrow> Map_has (users room) sid)"
  by (simp add: is_member_def getRoom_def)

lemma is_member_get:
  "is_member g r sid
     = (case Map_get (rooms (roomManager g)) r of None \<Rightarrow> False
        | Some room \<Rightarrow> Map_has (users room) sid)"
  by (simp add: is_member_def getRoom_def)

lemma leave_member:
  "is_member (fst (join_room_leave sid c g)) r sid'
     = (is_member g r sid' \<and> \<not> (currentRoom c = Some r \<and> r \<noteq> [] \<and> sid' = sid))"
  by (auto simp: join_room_leave_def is_member_rm is_member_get getRoom_def put_room_def
        Map_get_set removeUser_def Map_has_delete split: option.splits)

lemma enter_member:
  "is_member (fst (snd (join_room_enter sid data gen now g))) r sid'
     = (is_member g r sid' \<or> (r = or_else (jd_roomId data) ''default'' \<and> sid' = sid))"
  by (auto simp: join_room_enter_def Let_def split_beta is_member_rm is_member_get
        getOrCreateRoom_def put_room_def Map_get_set addUser_def Map_has_set Map_has_Nil
        DrawingState_new_def split: option.splits)

lemma getOrCreate_member:
  "is_member (g\<lparr>roomManager := snd (getOrCreateRoom B (roomManager g))\<rparr>) r sid'
     = is_member g r sid'"
  by (auto simp: is_member_rm is_member_get getOrCreateRoom_def Map_get_set Map_has_Nil
        DrawingState_new_def split: option.splits)

lemma enter_closure:
  "currentRoom (fst (join_room_enter sid data gen now g)) = Some (or_else (jd_roomId data) ''default'')"
  by (simp add: join_room_enter_def Let_def split_beta)

lemma or_else_default_nonempty: "or_else x ''default'' \<noteq> []"
  by (cases x) auto

lemma join_member:
  "is_member (fst (snd (on_join_room sid data gen now c g))) r sid'
     = (is_member g r sid' \<and> \<not> (currentRoom c = Some r \<and> r \<noteq> [] \<and> sid' = sid)
        \<or> (r = or_else (jd_roomId data) ''default'' \<and> sid' = sid))"
  by (simp add: on_join_room_def split_beta enter_member leave_member)

lemma join_closure:
  "currentRoom (fst (on_join_room sid data gen now c g)) = Some (or_else (jd_roomId data) ''default'')"
  by (simp add: on_join_room_def split_beta enter_closure)

lemma draw_member:
  "is_member (fst (snd (on_draw sid data now c g))) r sid' = is_member g r sid' \<and>
   fst (on_draw sid data now c g) = c"
  by (auto simp: on_draw_def split_beta Let_def is_member_rm is_member_get getRoom_def
        put_room_def Map_get_set addOperation_def split: option.splits)

lemma cursor_member:
  "fst (snd (on_cursor_move sid x y c g)) = g \<and> fst (on_cursor_move sid x y c g) = c"
  by (simp add: on_cursor_move_def split: option.splits)

lemma undo_member:
  "is_member (fst (snd (on_undo sid c g))) r sid' = is_member g r sid' \<and>
   fst (on_undo sid c g) = c"
  by (auto simp: on_undo_def split_beta Let_def is_member_rm is_member_get getRoom_def
        put_room_def Map_get_set undo_def split: option.splits)

lemma clear_member:
  "is_member (fst (snd (on_clear_canvas sid c g))) r sid' = is_member g r sid' \<and>
   fst (on_clear_canvas sid c g) = c"
  by (auto simp: on_clear_canvas_def is_member_rm is_member_get getRoom_def
        put_room_def Map_get_set clear_def split: option.splits)

lemma disconnect_member:
  "is_member (fst (snd (on_disconnect sid c g))) r sid'
     = (is_member g r sid' \<and> \<not> (currentRoom c = Some r \<and> r \<noteq> [] \<and> sid' = sid)) \<and>
   fst (on_disconnect sid c g) = c"
  by (auto simp: on_disconnect_def Let_def is_member_rm is_member_get getRoom_def
        put_room_def Map_get_set removeUser_def Map_has_delete split: option.splits)

lemma leave_distinct:
  "distinct (map fst (rooms (roomManager g))) \<Longrightarrow>
   distinct (map fst (rooms (roomManager (fst (join_room_leave sid c g)))))"
  by (simp add: join_room_leave_def put_room_def distinct_Map_set split: option.splits)

lemma enter_distinct:
  "distinct (map fst (rooms (roomManager g))) \<Longrightarrow>
   distinct (map fst (rooms (roomManager (fst (snd (join_room_enter sid data gen now g))))))"
  by (simp add: join_room_enter_def Let_def split_beta getOrCreateRoom_def put_room_def
        distinct_Map_set split: option.splits)

lemma join_distinct:
  "distinct (map fst (rooms (roomManager g))) \<Longrightarrow>
   distinct (map fst (rooms (roomManager (fst (snd (on_join_room sid data gen now c g))))))"
  by (simp add: on_join_room_def split_beta enter_distinct leave_distinct)

lemma draw_distinct:
  "distinct (map fst (rooms (roomManager g))) \<Longrightarrow>
   distinct (map fst (rooms (roomManager (fst (snd (on_draw sid data now c g))))))"
  by (simp add: on_draw_def split_beta Let_def put_room_def distinct_Map_set split: option.splits)

lemma undo_distinct:
  "distinct (map fst (rooms (roomManager g))) \<Longrightarrow>
   distinct (map fst (rooms (roomManager (fst (snd (on_undo sid c g))))))"
  by (simp add: on_undo_def split_beta Let_def put_room_def distinct_Map_set split: option.splits)

lemma clear_distinct:
  "distinct (map fst (rooms (roomManager g))) \<Longrightarrow>
   distinct (map fst (rooms (roomManager (fst (snd (on_clear_canvas sid c g))))))"
  by (simp add: on_clear_canvas_def put_room_def distinct_Map_set split: option.splits)

lemma disconnect_distinct:
  "distinct (map fst (rooms (roomManager g))) \<Longrightarrow>
   distinct (map fst (rooms (roomManager (fst (snd (on_disconnect sid c g))))))"
  by (simp add: on_disconnect_def Let_def put_room_def distinct_Map_set split: option.splits)

lemma dispatch_live:
  "Map_get (sockets s) sid = Some c \<Longrightarrow>
   dispatch sid h s
     = (\<lparr>globals = fst (snd (h c (globals s))),
         sockets = Map_set sid (fst (h c (globals s))) (sockets s)\<rparr>,
        snd (snd (h c (globals s))))"
  by (simp add: dispatch_def split_beta)

lemma dispatch_dead: "Map_get (sockets s) sid = None \<Longrightarrow> dispatch sid h s = (s, [])"
  by (simp add: dispatch_def)

lemma server_inv_update:
  assumes inv: "server_inv s"
    and live: "Map_get (sockets s) sid = Some c"
    and d: "distinct (map fst (rooms (roomManager g')))"
    and ne: "currentRoom c' \<noteq> Some []"
    and own: "\<And>r. is_member g' r sid = (currentRoom c' = Some r)"
    and others: "\<And>r sid'. sid' \<noteq> sid \<Longrightarrow> is_member g' r sid' = is_member (globals s) r sid'"
  shows "server_inv \<lparr>globals = g', sockets = Map_set sid c' (sockets s)\<rparr>"
proof -
  have old: "\<And>r sid'. is_member (globals s) r sid'
      = (\<exists>c. Map_get (sockets s) sid' = Some c \<and> currentRoom c = Some r)"
    using inv by (simp add: server_inv_def)
  have ne_old: "\<And>sid' c. Map_get (sockets s) sid' = Some c \<Longrightarrow> currentRoom c \<noteq> Some []"
    using inv by (simp add: server_inv_def)
  show ?thesis
    unfolding server_inv_def
    using d ne own others old ne_old
    by (simp add: Map_get_set)
qed

lemma server_inv_same_closure:
  assumes inv: "server_inv s"
    and live: "Map_get (sockets s) sid = Some c"
    and d: "distinct (map fst (rooms (roomManager g')))"
    and mem: "\<And>r sid'. is_member g' r sid' = is_member (globals s) r sid'"
  shows "server_inv \<lparr>globals = g', sockets = Map_set sid c (sockets s)\<rparr>"
proof (rule server_inv_update [OF inv live d])
  show "currentRoom c \<noteq> Some []"
    using inv live by (simp add: server_inv_def)
  show "\<And>r. is_member g' r sid = (currentRoom c = Some r)"
    using inv live by (simp add: mem server_inv_def)
  show "\<And>r sid'. sid' \<noteq> sid \<Longrightarrow> is_member g' r sid' = is_member (globals s) r sid'"
    by (simp add: mem)
qed

lemma inv_distinct: "server_inv s \<Longrightarrow> distinct (map fst (rooms (roomManager (globals s))))"
  by (simp add: server_inv_def)

lemma inv_member:
  "server_inv s \<Longrightarrow> Map_get (sockets s) sid = Some c \<Longrightarrow>
   is_member (globals s) r sid = (currentRoom c = Some r)"
  by (simp add: server_inv_def)

lemma inv_nonempty:
  "server_inv s \<Longrightarrow> Map_get (sockets s) sid = Some c \<Longrightarrow> currentRoom c \<noteq> Some []"
  by (simp add: server_inv_def)

lemma inv_dead:
  "server_inv s \<Longrightarrow> Map_get (sockets s) sid = None \<Longrightarrow> \<not> is_member (globals s) r sid"
  by (simp add: server_inv_def)

lemma server_inv_join:
  assumes inv: "server_inv s"
  shows "server_inv (fst (step s (Ev_join_room sid data gen now)))"
proof (cases "Map_get (sockets s) sid")
  case None
  then show ?thesis using inv by (simp add: dispatch_dead)
next
  case (Some c)
  have "server_inv \<lparr>globals = fst (snd (on_join_room sid data gen now c (globals s))),
      sockets = Map_set sid (fst (on_join_room sid data gen now c (globals s))) (sockets s)\<rparr>"
  proof (rule server_inv_update [OF inv Some])
    show "distinct (map fst (rooms (roomManager
        (fst (snd (on_join_room sid data gen now c (globals s)))))))"
      by (rule join_distinct [OF inv_distinct [OF inv]])
    show "currentRoom (fst (on_join_room sid data gen now c (globals s))) \<noteq> Some []"
      by (simp add: join_closure or_else_default_nonempty)
    show "\<And>r. is_member (fst (snd (on_join_room sid data gen now c (globals s)))) r sid
        = (currentRoom (fst (on_join_room sid data gen now c (globals s))) = Some r)"
      using inv_nonempty [OF inv Some]
      by (auto simp: join_member join_closure inv_member [OF inv Some])
    show "\<And>r sid'. sid' \<noteq> sid \<Longrightarrow>
        is_member (fst (snd (on_join_room sid data gen now c (globals s)))) r sid'
          = is_member (globals s) r sid'"
      by (simp add: join_member)
  qed
  then show ?thesis by (simp add: dispatch_live [OF Some])
qed

lemma server_inv_draw:
  assumes inv: "server_inv s"
  shows "server_inv (fst (step s (Ev_draw sid data now)))"
proof (cases "Map_get (sockets s) sid")
  case None
  then show ?thesis using inv by (simp add: dispatch_dead)
next
  case (Some c)
  have "server_inv \<lparr>globals = fst (snd (on_draw sid data now c (globals s))),
      sockets = Map_set sid c (sockets s)\<rparr>"
    by (rule server_inv_same_closure [OF inv Some draw_distinct [OF inv_distinct [OF inv]]])
       (simp add: draw_member)
  then show ?thesis by (simp add: dispatch_live [OF Some] draw_member)
qed

lemma server_eta: "\<lparr>globals = globals s, sockets = sockets s\<rparr> = (s :: 'd server)"
  by (cases s) simp

lemma server_inv_cursor:
  assumes inv: "server_inv s"
  shows "server_inv (fst (step s (Ev_cursor_move sid x y)))"
proof (cases "Map_get (sockets s) sid")
  case None
  then show ?thesis using inv by (simp add: dispatch_dead)
next
  case (Some c)
  then show ?thesis
    using inv by (simp add: dispatch_live [OF Some] cursor_member Map_set_same server_eta)
qed

lemma server_inv_undo:
  assumes inv: "server_inv s"
  shows "server_inv (fst (step s (Ev_undo sid)))"
proof (cases "Map_get (sockets s) sid")
  case None
  then show ?thesis using inv by (simp add: dispatch_dead)
next
  case (Some c)
  have "server_inv \<lparr>globals = fst (snd (on_undo sid c (globals s))),
      sockets = Map_set sid c (sockets s)\<rparr>"
    by (rule server_inv_same_closure [OF inv Some undo_distinct [OF inv_distinct [OF inv]]])
       (simp add: undo_member)
  then show ?thesis by (simp add: dispatch_live [OF Some] undo_member)
qed

lemma server_inv_clear:
  assumes inv: "server_inv s"
  shows "server_inv (fst (step s (Ev_clear_canvas sid)))"
proof (cases "Map_get (sockets s) sid")
  case None
  then show ?thesis using inv by (simp add: dispatch_dead)
next
  case (Some c)
  have "server_inv \<lparr>globals = fst (snd (on_clear_canvas sid c (globals s))),
      sockets = Map_set sid c (sockets s)\<rparr>"
    by (rule server_inv_same_closure [OF inv Some clear_distinct [OF inv_distinct [OF inv]]])
       (simp add: clear_member)
  then show ?thesis by (simp add: dispatch_live [OF Some] clear_member)
qed

lemma server_inv_connection:
  assumes inv: "server_inv s"
  shows "server_inv (fst (step s (Ev_connection sid)))"
proof (cases "Map_get (sockets s) sid")
  case None
  have "\<And>r. \<not> is_member (globals s) r sid"
    by (rule inv_dead [OF inv None])
  with None inv show ?thesis
    by (auto simp: server_inv_def Map_has_get Map_get_set)
next
  case (Some c)
  then show ?thesis using inv by (simp add: Map_has_get)
qed

lemma server_inv_disconnect:
  assumes inv: "server_inv s"
  shows "server_inv (fst (step s (Ev_disconnect sid)))"
proof (cases "Map_get (sockets s) sid")
  case None
  have "\<And>r. \<not> is_member (globals s) r sid"
    by (rule inv_dead [OF inv None])
  with None inv show ?thesis
    by (auto simp: dispatch_dead server_inv_def Map_get_delete)
next
  case (Some c)
  let ?g = "fst (snd (on_disconnect sid c (globals s)))"
  have st: "fst (step s (Ev_disconnect sid))
      = \<lparr>globals = ?g, sockets = Map_delete sid (Map_set sid c (sockets s))\<rparr>"
    by (simp add: dispatch_live [OF Some] disconnect_member)
  have d: "distinct (map fst (rooms (roomManager ?g)))"
    by (rule disconnect_distinct [OF inv_distinct [OF inv]])
  have own: "\<And>r. \<not> is_member ?g r sid"
    using inv_nonempty [OF inv Some] by (auto simp: disconnect_member inv_member [OF inv Some])
  have others: "\<And>r sid'. sid' \<noteq> sid \<Longrightarrow> is_member ?g r sid' = is_member (globals s) r sid'"
    by (simp add: disconnect_member)
  have old: "\<And>r sid'. is_member (globals s) r sid'
      = (\<exists>c. Map_get (sockets s) sid' = Some c \<and> currentRoom c = Some r)"
    using inv by (simp add: server_inv_def)
  have ne_old: "\<And>sid' c. Map_get (sockets s) sid' = Some c \<Longrightarrow> currentRoom c \<noteq> Some []"
    using inv by (simp add: server_inv_def)
  show ?thesis
    unfolding st server_inv_def
    using d own others old ne_old
    by (simp add: Map_get_delete Map_get_set)
qed

lemma removeRoom_member:
  "is_member (g\<lparr>roomManager := snd (removeRoom r0 (roomManager g))\<rparr>) r sid = is_member g r sid"
  by (auto simp: removeRoom_def is_member_rm is_member_get Map_get_delete Map_size_def
        Map_has_Nil split: option.splits)

lemma removeRoom_distinct:
  "distinct (map fst (rooms rm)) \<Longrightarrow> distinct (map fst (rooms (snd (removeRoom r0 rm))))"
  by (simp add: removeRoom_def distinct_Map_delete split: option.splits)

lemma cleanup_member:
  assumes "distinct (map fst (rooms (roomManager g)))"
  shows "is_member (g\<lparr>roomManager := snd (cleanupEmptyRooms (roomManager g))\<rparr>) r sid
           = is_member g r sid"
proof (cases "Map_get (rooms (roomManager g)) r")
  case None
  then show ?thesis
    by (simp add: cleanupEmptyRooms_def Let_def is_member_rm is_member_get Map_get_fold_delete)
next
  case (Some room)
  have in_set: "((r, st) \<in> set (rooms (roomManager g))) = (st = room)" for st
  proof -
    have "((r, st) \<in> set (rooms (roomManager g))) = (map_of (rooms (roomManager g)) r = Some st)"
      using map_of_eq_Some_iff [OF assms, of r st] by (simp only:)
    also have "\<dots> = (st = room)"
      using Some by (auto simp: Map_get_def)
    finally show ?thesis .
  qed
  show ?thesis
  proof (cases "users room = []")
    case True
    with Some show ?thesis
      by (simp add: cleanupEmptyRooms_def Let_def is_member_rm is_member_get Map_get_fold_delete
            Map_has_Nil)
  next
    case False
    have "r \<notin> fst ` {e \<in> set (rooms (roomManager g)). Map_size (users (snd e)) = 0}"
      using False in_set by (auto simp: Map_size_def)
    with Some show ?thesis
      by (simp add: cleanupEmptyRooms_def Let_def is_member_rm is_member_get Map_get_fold_delete
            split_beta)
  qed
qed

lemma cleanup_distinct:
  "distinct (map fst (rooms rm)) \<Longrightarrow> distinct (map fst (rooms (snd (cleanupEmptyRooms rm))))"
  by (simp add: cleanupEmptyRooms_def Let_def distinct_fold_delete)

lemma server_inv_timeout:
  assumes inv: "server_inv s"
  shows "server_inv (fst (step s (Ev_timeout r0)))"
  using inv removeRoom_distinct [of "roomManager (globals s)" r0]
  by (simp add: server_inv_def removeRoom_member)

lemma server_inv_interval:
  assumes inv: "server_inv s"
  shows "server_inv (fst (step s Ev_interval))"
  using inv cleanup_distinct [of "roomManager (globals s)"]
  by (simp add: server_inv_def cleanup_member)

lemma server_inv_step: "server_inv s \<Longrightarrow> server_inv (fst (step s e))"
  by (cases e)
     (simp_all only: server_inv_connection server_inv_join server_inv_draw server_inv_cursor
        server_inv_undo server_inv_clear server_inv_disconnect server_inv_timeout
        server_inv_interval)

lemma server_inv_init: "server_inv server_init"
  by (simp add: server_inv_def server_init_def RoomManager_new_def is_member_def getRoom_def
        Map_get_def)

lemma server_inv_run: "server_inv s \<Longrightarrow> server_inv (fst (run_server s evs))"
proof (induction evs arbitrary: s)
  case Nil
  then show ?case by simp
next
  case (Cons e es)
  from Cons.prems have "server_inv (fst (step s e))" by (rule server_inv_step)
  then have "server_inv (fst (run_server (fst (step s e)) es))" by (rule Cons.IH)
  then show ?case by (simp add: split_beta)
qed

text \<open>
  Claim C5. Take any state the server reaches and a live connection whose closure names
  room \<open>A\<close>; it is then in the \<^verbatim>\<open>users\<close> map of \<open>A\<close> and of no other room. The join handler
  for room \<open>B\<close> first removes it from \<open>A\<close> (calling \<^verbatim>\<open>socket.leave\<close> on \<open>A\<close> first): after that
  part, and after the new room is looked up or created, it is in no room's map. At the
  end it is in the map of \<open>B\<close> and of no other room, so not in that of \<open>A\<close> when \<open>A\<close> and \<open>B\<close>
  differ, its closure names \<open>B\<close>, and \<^verbatim>\<open>socket.join\<close> on \<open>B\<close> follows the messages of the leave.
\<close>

theorem join_switches_room:
  assumes live: "Map_get (sockets (fst (run_server server_init evs))) sid = Some c"
    and bound: "currentRoom c = Some A"
  shows "(let s = fst (run_server server_init evs);
              g = globals s;
              B = or_else (jd_roomId data) ''default'';
              g1 = fst (join_room_leave sid c g);
              gc = g1\<lparr>roomManager := snd (getOrCreateRoom B (roomManager g1))\<rparr>;
              c2 = fst (join_room_enter sid data gen now g1);
              g2 = fst (snd (join_room_enter sid data gen now g1))
          in is_member g A sid \<and>
             (\<forall>r. is_member g r sid = (r = A)) \<and>
             (\<forall>r. \<not> is_member g1 r sid) \<and>
             (\<forall>r. \<not> is_member gc r sid) \<and>
             (\<forall>r. is_member g2 r sid = (r = B)) \<and>
             (A \<noteq> B \<longrightarrow> \<not> is_member g2 A sid) \<and>
             currentRoom c2 = Some B \<and>
             fst (step s (Ev_join_room sid data gen now))
               = \<lparr>globals = g2, sockets = Map_set sid c2 (sockets s)\<rparr> \<and>
             snd (step s (Ev_join_room sid data gen now))
               = [Socket_leave sid A, Socket_to_emit sid A (Msg_user_left sid)]
                   @ snd (snd (join_room_enter sid data gen now g1)) \<and>
             hd (snd (snd (join_room_enter sid data gen now g1))) = Socket_join sid B)"
proof -
  let ?s = "fst (run_server server_init evs)"
  let ?g = "globals ?s"
  let ?B = "or_else (jd_roomId data) ''default''"
  let ?g1 = "fst (join_room_leave sid c ?g)"
  have inv: "server_inv ?s"
    by (rule server_inv_run [OF server_inv_init])
  have before: "is_member ?g r sid = (r = A)" for r
    using inv_member [OF inv live, of r] bound by auto
  have A: "A \<noteq> []"
    using inv_nonempty [OF inv live] bound by simp
  have left: "\<not> is_member ?g1 r sid" for r
    using A bound by (auto simp: leave_member before)
  have created: "\<not> is_member (?g1\<lparr>roomManager := snd (getOrCreateRoom ?B (roomManager ?g1))\<rparr>) r sid"
    for r
    by (simp add: getOrCreate_member left)
  have entered: "is_member (fst (snd (join_room_enter sid data gen now ?g1))) r sid = (r = ?B)"
    for r
    by (simp add: enter_member left)
  have "is_member ?g A sid"
    by (simp add: before)
  then obtain oldRoom where "getRoom (roomManager ?g) A = Some oldRoom"
    by (auto simp: is_member_def split: option.splits)
  then have fx: "snd (join_room_leave sid c ?g)
      = [Socket_leave sid A, Socket_to_emit sid A (Msg_user_left sid)]"
    using A bound by (simp add: join_room_leave_def)
  have fx2: "hd (snd (snd (join_room_enter sid data gen now ?g1))) = Socket_join sid ?B"
    by (simp add: join_room_enter_def Let_def split_beta)
  have st2: "snd (step ?s (Ev_join_room sid data gen now))
      = snd (join_room_leave sid c ?g) @ snd (snd (join_room_enter sid data gen now ?g1))"
    by (simp add: dispatch_live [OF live] on_join_room_def split_beta)
  have st: "fst (step ?s (Ev_join_room sid data gen now))
      = \<lparr>globals = fst (snd (join_room_enter sid data gen now ?g1)),
         sockets = Map_set sid (fst (join_room_enter sid data gen now ?g1)) (sockets ?s)\<rparr>"
    by (simp add: dispatch_live [OF live] on_join_room_def split_beta)
  show ?thesis
    unfolding Let_def
    using before left created entered st st2 fx fx2
    by (simp add: enter_closure)
qed

theorem join_switches_room_witness:
  "Map_get (sockets (fst (run_server (server_init :: unit server)
       [Ev_connection ''x'',
        Ev_join_room ''x'' \<lparr>jd_roomId = Some ''A'', jd_username = Some ''u''\<rparr> ''g'' 1]))) ''x''
     = Some \<lparr>currentRoom = Some ''A'',
             userInfo = Some \<lparr>userId = ''x'', username = ''u'', color = ''#FF6B6B''\<rparr>\<rparr> \<and>
   is_member (globals (fst (run_server (server_init :: unit server)
       [Ev_connection ''x'',
        Ev_join_room ''x'' \<lparr>jd_roomId = Some ''A'', jd_username = Some ''u''\<rparr> ''g'' 1]))) ''A'' ''x'' \<and>
   is_member (globals (fst (step (fst (run_server (server_init :: unit server)
       [Ev_connection ''x'',
        Ev_join_room ''x'' \<lparr>jd_roomId = Some ''A'', jd_username = Some ''u''\<rparr> ''g'' 1]))
       (Ev_join_room ''x'' \<lparr>jd_roomId = Some ''B'', jd_username = None\<rparr> ''g'' 2)))) ''B'' ''x'' \<and>
   \<not> is_member (globals (fst (step (fst (run_server (server_init :: unit server)
       [Ev_connection ''x'',
        Ev_join_room ''x'' \<lparr>jd_roomId = Some ''A'', jd_username = Some ''u''\<rparr> ''g'' 1]))
       (Ev_join_room ''x'' \<lparr>jd_roomId = Some ''B'', jd_username = None\<rparr> ''g'' 2)))) ''A'' ''x''"
proof -
  have live: "Map_get (sockets (fst (run_server (server_init :: unit server)
       [Ev_connection ''x'',
        Ev_join_room ''x'' \<lparr>jd_roomId = Some ''A'', jd_username = Some ''u''\<rparr> ''g'' 1]))) ''x''
     = Some \<lparr>currentRoom = Some ''A'',
             userInfo = Some \<lparr>userId = ''x'', username = ''u'', color = ''#FF6B6B''\<rparr>\<rparr>"
    by (simp add: server_init_def RoomManager_new_def dispatch_def on_join_room_def
          join_room_leave_def join_room_enter_def getOrCreateRoom_def put_room_def addUser_def
          DrawingState_new_def Map_get_def Map_has_def Map_set_def USER_COLORS_def Let_def)
  have bound: "currentRoom \<lparr>currentRoom = Some ''A'',
             userInfo = Some \<lparr>userId = ''x'', username = ''u'', color = ''#FF6B6B''\<rparr>\<rparr> = Some ''A''"
    by simp
  show ?thesis
    using join_switches_room [OF live bound, of "\<lparr>jd_roomId = Some ''B'', jd_username = None\<rparr>" "''g''" 2] live
    by (simp add: Let_def)
qed

end
